theory Spec2Isabelle
  imports Main "HOL-Library.Finite_Map"
begin

section \<open>Planner data model (frontend/app/planner/page.tsx)\<close>

text \<open>
  JavaScript numbers that the planner keeps in its state (portion counts, the number of
  weeks, prices in minor units) are integral in every state the page builds, so they are
  \<open>int\<close>. Numbers that arrive from outside (the range input, JSON in local storage) are
  \<open>jsnum\<close>: a finite value, an infinity or NaN.
\<close>

datatype jsnum = NaN | PosInf | NegInf | Fin rat

definition num :: "int \<Rightarrow> jsnum" where
  "num n = Fin (of_int n)"

definition MAX_PORTIONS :: int where
  "MAX_PORTIONS = 8"

definition MAX_WEEKS :: int where
  "MAX_WEEKS = 8"

record Selection =
  offerId :: string
  day :: string
  portions :: int

text \<open>
  \<open>Record<string, Selection>\<close>: a finite map from offer id to selection. The page never
  depends on property order when it compares or copies selection maps.
\<close>

type_synonym Selections = "(string, Selection) fmap"

record WeekPlan =
  weekStart :: "string option"
  selections :: Selections
  enabled :: bool

record PlannerState =
  weeks :: "WeekPlan list"
  weeksCount :: int
  repeatWeeks :: bool
  address :: string
  promoCode :: string

datatype DayOfferStatus = Available | SoldOut | Closed

text \<open>The fields of \<open>MenuDay\<close>, \<open>MenuResponse\<close> and \<open>PlannerPreset\<close> that the planner reads.\<close>

record MenuDay =
  md_day :: string
  md_offerId :: "string option"
  md_status :: DayOfferStatus
  md_priceAmount :: int

record MenuResponse =
  menu_weekStart :: "string option"
  menu_items :: "MenuDay list"

record PlannerPreset =
  preset_days :: "string list"
  preset_portions :: int

text \<open>
  The date library behind \<open>shiftWeekStart\<close> (\<open>new Date(base + "T00:00:00Z")\<close>, the NaN test,
  \<open>setUTCDate\<close>, \<open>toISOString().slice(0, 10)\<close>) is a parameter: \<open>sh base offset\<close> is
  \<open>None\<close> when the date does not parse, else the shifted date's text.
\<close>

type_synonym dateShift = "string \<Rightarrow> nat \<Rightarrow> string option"

text \<open>The nullish coalescing operator \<open>a ?? b\<close> on a nullable first operand.\<close>

definition orElse :: "'a option \<Rightarrow> 'a option \<Rightarrow> 'a option" where
  "orElse a b = (case a of Some x \<Rightarrow> Some x | None \<Rightarrow> b)"

text \<open>Truthiness of a \<open>string | null\<close> value: null and the empty string are falsy.\<close>

definition truthyStr :: "string option \<Rightarrow> bool" where
  "truthyStr s = (case s of None \<Rightarrow> False | Some t \<Rightarrow> t \<noteq> [])"

definition clampNumber :: "jsnum \<Rightarrow> int \<Rightarrow> int \<Rightarrow> int" where
  "clampNumber v lo hi =
     (case v of
        NaN \<Rightarrow> lo
      | PosInf \<Rightarrow> min (max hi lo) hi
      | NegInf \<Rightarrow> min lo hi
      | Fin q \<Rightarrow> min (max \<lfloor>q\<rfloor> lo) hi)"

definition shiftWeekStart :: "dateShift \<Rightarrow> string option \<Rightarrow> nat \<Rightarrow> string option" where
  "shiftWeekStart sh base offset =
     (case base of
        None \<Rightarrow> None
      | Some b \<Rightarrow> if b = [] then None else sh b offset)"

definition cloneSelections :: "Selections \<Rightarrow> Selections" where
  "cloneSelections source = fmmap (\<lambda>v. v) source"

definition createWeekPlan :: "string option \<Rightarrow> bool \<Rightarrow> Selections \<Rightarrow> WeekPlan" where
  "createWeekPlan ws en sels =
     \<lparr>weekStart = ws, selections = cloneSelections sels, enabled = en\<rparr>"

text \<open>The body of the loop of \<open>ensureWeeks\<close> at one index.\<close>

definition ensureWeekAt ::
  "dateShift \<Rightarrow> WeekPlan list \<Rightarrow> string option \<Rightarrow> bool \<Rightarrow> nat \<Rightarrow> WeekPlan" where
  "ensureWeekAt sh wks baseWeekStart rep index =
     (let base = (case wks of [] \<Rightarrow> createWeekPlan baseWeekStart True fmempty | w # _ \<Rightarrow> w);
          baseSelections = cloneSelections (selections base);
          existing = (if index < length wks then Some (wks ! index) else None);
          computedStart = shiftWeekStart sh baseWeekStart index
      in if index = 0 then
           \<lparr>weekStart =
              orElse computedStart
                (orElse (case existing of None \<Rightarrow> None | Some e \<Rightarrow> weekStart e)
                   (orElse (weekStart base) baseWeekStart)),
            selections =
              (case existing of
                 Some e \<Rightarrow> cloneSelections (selections e)
               | None \<Rightarrow> cloneSelections baseSelections),
            enabled = True\<rparr>
         else
           \<lparr>weekStart =
              orElse computedStart (case existing of None \<Rightarrow> None | Some e \<Rightarrow> weekStart e),
            selections =
              (if rep then cloneSelections baseSelections
               else (case existing of
                       Some e \<Rightarrow> cloneSelections (selections e)
                     | None \<Rightarrow> fmempty)),
            enabled = (case existing of None \<Rightarrow> True | Some e \<Rightarrow> enabled e)\<rparr>)"

text \<open>\<open>for (index = 0; index < targetCount; index += 1)\<close> over an integral count.\<close>

definition ensureWeeks ::
  "dateShift \<Rightarrow> WeekPlan list \<Rightarrow> int \<Rightarrow> string option \<Rightarrow> bool \<Rightarrow> WeekPlan list" where
  "ensureWeeks sh wks targetCount baseWeekStart rep =
     map (ensureWeekAt sh wks baseWeekStart rep) [0..<nat targetCount]"

definition areSelectionMapsEqual :: "Selections \<Rightarrow> Selections \<Rightarrow> bool" where
  "areSelectionMapsEqual left right =
     (if fcard (fmdom left) \<noteq> fcard (fmdom right) then False
      else fBall (fmdom left) (\<lambda>key.
             case (fmlookup left key, fmlookup right key) of
               (Some a, Some b) \<Rightarrow>
                 \<not> (offerId a \<noteq> offerId b \<or> day a \<noteq> day b \<or> portions a \<noteq> portions b)
             | _ \<Rightarrow> False))"

fun areWeeksEqualLoop :: "WeekPlan list \<Rightarrow> WeekPlan list \<Rightarrow> bool" where
  "areWeeksEqualLoop [] _ = True"
| "areWeeksEqualLoop (a # as) [] = False"
| "areWeeksEqualLoop (a # as) (b # bs) =
     (if weekStart a \<noteq> weekStart b \<or> enabled a \<noteq> enabled b then False
      else if \<not> areSelectionMapsEqual (selections a) (selections b) then False
      else areWeeksEqualLoop as bs)"

definition areWeeksEqual :: "WeekPlan list \<Rightarrow> WeekPlan list \<Rightarrow> bool" where
  "areWeeksEqual left right =
     (if length left \<noteq> length right then False else areWeeksEqualLoop left right)"

text \<open>
  The loop of \<open>syncRepeatedWeeks\<close> over the weeks after the first: the synchronized
  weeks and the \<open>changed\<close> flag.
\<close>

fun syncLoop :: "WeekPlan list \<Rightarrow> Selections \<Rightarrow> WeekPlan list \<times> bool" where
  "syncLoop [] baseSelections = ([], False)"
| "syncLoop (current # rest) baseSelections =
     (let nextSelections = cloneSelections baseSelections;
          (out, changed) = syncLoop rest baseSelections
      in if areSelectionMapsEqual (selections current) nextSelections
         then (current # out, changed)
         else (current\<lparr>selections := nextSelections\<rparr> # out, True))"

definition syncRepeatedWeeks :: "WeekPlan list \<Rightarrow> Selections \<Rightarrow> WeekPlan list" where
  "syncRepeatedWeeks wks baseSelections =
     (case wks of
        [] \<Rightarrow> wks
      | first # rest \<Rightarrow>
          if rest = [] then wks
          else (let (out, changed) = syncLoop rest baseSelections
                in if changed then first # out else wks))"

definition firstWeekStart :: "WeekPlan list \<Rightarrow> string option" where
  "firstWeekStart wks = (case wks of [] \<Rightarrow> None | w # _ \<Rightarrow> weekStart w)"

definition menuWeekStart :: "MenuResponse option \<Rightarrow> string option" where
  "menuWeekStart menu = (case menu of None \<Rightarrow> None | Some m \<Rightarrow> menu_weekStart m)"

section \<open>State updates of the planner page\<close>

datatype jsError = TypeError

definition validOfferIds :: "MenuResponse \<Rightarrow> string list" where
  "validOfferIds m =
     List.map_filter
       (\<lambda>item. case md_offerId item of None \<Rightarrow> None | Some s \<Rightarrow> if s = [] then None else Some s)
       (menu_items m)"

text \<open>
  The effect that runs when the menu query changes. Its first block drops the selections
  of the first week whose offer is not in the menu; \<open>weeks[0]\<close> of an empty array is
  \<open>undefined\<close> and reading \<open>.selections\<close> from it throws.
\<close>

definition pruneStep :: "MenuResponse option \<Rightarrow> WeekPlan list \<Rightarrow> jsError + WeekPlan list" where
  "pruneStep menu wks =
     (case menu of
        None \<Rightarrow> Inr wks
      | Some m \<Rightarrow>
          (case wks of
             [] \<Rightarrow> Inl TypeError
           | w0 # rest \<Rightarrow>
               (let validIds = set (validOfferIds m);
                    filteredSelections = fmfilter (\<lambda>oid. oid \<in> validIds) (selections w0)
                in if \<not> areSelectionMapsEqual filteredSelections (selections w0)
                   then Inr (w0\<lparr>selections := filteredSelections\<rparr> # rest)
                   else Inr wks)))"

definition repeatStep :: "bool \<Rightarrow> WeekPlan list \<Rightarrow> jsError + WeekPlan list" where
  "repeatStep rep wks =
     (if rep then
        (case wks of
           [] \<Rightarrow> Inl TypeError
         | w0 # _ \<Rightarrow>
             (let synced = syncRepeatedWeeks wks (selections w0)
              in if \<not> areWeeksEqual synced wks then Inr synced else Inr wks))
      else Inr wks)"

definition menuEffect ::
  "dateShift \<Rightarrow> MenuResponse option \<Rightarrow> PlannerState \<Rightarrow> jsError + PlannerState" where
  "menuEffect sh menu prev =
     (let targetCount = clampNumber (num (weeksCount prev)) 1 MAX_WEEKS;
          targetWeekStart = orElse (menuWeekStart menu) (firstWeekStart (weeks prev));
          weeks0 = ensureWeeks sh (weeks prev) targetCount targetWeekStart (repeatWeeks prev)
      in case pruneStep menu weeks0 of
           Inl e \<Rightarrow> Inl e
         | Inr weeks1 \<Rightarrow>
             (case repeatStep (repeatWeeks prev) weeks1 of
                Inl e \<Rightarrow> Inl e
              | Inr weeks2 \<Rightarrow>
                  Inr (if areWeeksEqual weeks2 (weeks prev) then prev
                       else prev\<lparr>weeks := weeks2\<rparr>)))"

text \<open>
  \<open>menu.items.find(item => item.day === name && item.offerId && item.status === "available")\<close>,
  with the offer id of the item found.
\<close>

fun findAvailable :: "MenuDay list \<Rightarrow> string \<Rightarrow> (MenuDay \<times> string) option" where
  "findAvailable [] name = None"
| "findAvailable (item # items) name =
     (case md_offerId item of
        Some oid \<Rightarrow>
          if md_day item = name \<and> oid \<noteq> [] \<and> md_status item = Available then Some (item, oid)
          else findAvailable items name
      | None \<Rightarrow> findAvailable items name)"

text \<open>The effect for the \<open>day\<close> query parameter: it preselects that day once the menu is there.\<close>

definition initialDayEffect ::
  "dateShift \<Rightarrow> MenuResponse option \<Rightarrow> string option \<Rightarrow> PlannerState \<Rightarrow> PlannerState" where
  "initialDayEffect sh menu initialDayParam prev =
     (case (menu, initialDayParam) of
        (Some m, Some name) \<Rightarrow>
          if name = [] then prev
          else
            (case findAvailable (menu_items m) name of
               None \<Rightarrow> prev
             | Some (targetDay, oid) \<Rightarrow>
                 (let targetCount = clampNumber (num (weeksCount prev)) 1 MAX_WEEKS;
                      targetWeekStart = orElse (menu_weekStart m) (firstWeekStart (weeks prev));
                      weeks0 = ensureWeeks sh (weeks prev) targetCount targetWeekStart (repeatWeeks prev)
                  in case weeks0 of
                       [] \<Rightarrow> prev
                     | current # rest \<Rightarrow>
                         if oid |\<in>| fmdom (selections current) then prev
                         else
                           (let sels = fmupd oid \<lparr>offerId = oid, day = md_day targetDay, portions = 1\<rparr>
                                         (selections current);
                                weeks1 = current\<lparr>selections := sels\<rparr> # rest;
                                weeks2 = (if repeatWeeks prev then syncRepeatedWeeks weeks1 sels else weeks1)
                            in prev\<lparr>weeks := weeks2\<rparr>)))
      | _ \<Rightarrow> prev)"

definition handleToggleDay ::
  "dateShift \<Rightarrow> MenuResponse option \<Rightarrow> MenuDay \<Rightarrow> PlannerState \<Rightarrow> PlannerState" where
  "handleToggleDay sh menu dayItem prev =
     (case md_offerId dayItem of
        None \<Rightarrow> prev
      | Some oid \<Rightarrow>
          if oid = [] \<or> md_status dayItem \<noteq> Available then prev
          else
            (let targetCount = clampNumber (num (weeksCount prev)) 1 MAX_WEEKS;
                 targetWeekStart = orElse (menuWeekStart menu) (firstWeekStart (weeks prev));
                 weeks0 = ensureWeeks sh (weeks prev) targetCount targetWeekStart (repeatWeeks prev)
             in case weeks0 of
                  [] \<Rightarrow> prev
                | current # rest \<Rightarrow>
                    (let sels =
                           (if oid |\<in>| fmdom (selections current)
                            then fmdrop oid (selections current)
                            else fmupd oid \<lparr>offerId = oid, day = md_day dayItem, portions = 1\<rparr>
                                   (selections current));
                         weeks1 = current\<lparr>selections := sels\<rparr> # rest;
                         weeks2 = (if repeatWeeks prev then syncRepeatedWeeks weeks1 sels else weeks1)
                     in if areWeeksEqual weeks2 (weeks prev) then prev
                        else prev\<lparr>weeks := weeks2\<rparr>)))"

definition handleChangePortions ::
  "dateShift \<Rightarrow> MenuResponse option \<Rightarrow> string \<Rightarrow> int \<Rightarrow> PlannerState \<Rightarrow> PlannerState" where
  "handleChangePortions sh menu oid nextPortions prev =
     (let targetCount = clampNumber (num (weeksCount prev)) 1 MAX_WEEKS;
          targetWeekStart = orElse (menuWeekStart menu) (firstWeekStart (weeks prev));
          weeks0 = ensureWeeks sh (weeks prev) targetCount targetWeekStart (repeatWeeks prev)
      in case weeks0 of
           [] \<Rightarrow> prev
         | current # rest \<Rightarrow>
             (case fmlookup (selections current) oid of
                None \<Rightarrow> prev
              | Some sel \<Rightarrow>
                  (let clamped = min (max nextPortions 1) MAX_PORTIONS
                   in if portions sel = clamped then prev
                      else
                        (let sels = fmupd oid (sel\<lparr>portions := clamped\<rparr>) (selections current);
                             weeks1 = current\<lparr>selections := sels\<rparr> # rest;
                             weeks2 = (if repeatWeeks prev then syncRepeatedWeeks weeks1 sels
                                       else weeks1)
                         in prev\<lparr>weeks := weeks2\<rparr>))))"

text \<open>The loop of \<open>handleApplyPreset\<close> over \<open>preset.days\<close>.\<close>

fun presetLoop :: "MenuDay list \<Rightarrow> int \<Rightarrow> string list \<Rightarrow> Selections \<Rightarrow> Selections" where
  "presetLoop items p [] sels = sels"
| "presetLoop items p (dayName # rest) sels =
     (case findAvailable items dayName of
        None \<Rightarrow> presetLoop items p rest sels
      | Some (menuDay, oid) \<Rightarrow>
          presetLoop items p rest
            (fmupd oid \<lparr>offerId = oid, day = md_day menuDay, portions = max 1 p\<rparr> sels))"

text \<open>
  In \<open>handleApplyPreset\<close> the branch for an empty week list is dead (the clamped count is at
  least one); there JavaScript spreads \<open>undefined\<close>, which leaves the other fields unset.
\<close>

definition handleApplyPreset ::
  "dateShift \<Rightarrow> MenuResponse option \<Rightarrow> PlannerPreset \<Rightarrow> PlannerState \<Rightarrow> PlannerState" where
  "handleApplyPreset sh menu preset prev =
     (case menu of
        None \<Rightarrow> prev
      | Some m \<Rightarrow>
          (let targetCount = clampNumber (num (weeksCount prev)) 1 MAX_WEEKS;
               targetWeekStart = orElse (menu_weekStart m) (firstWeekStart (weeks prev));
               weeks0 = ensureWeeks sh (weeks prev) targetCount targetWeekStart (repeatWeeks prev);
               sels = presetLoop (menu_items m) (preset_portions preset) (preset_days preset) fmempty;
               weeks1 = (case weeks0 of
                           [] \<Rightarrow> [\<lparr>weekStart = None, selections = sels, enabled = False\<rparr>]
                         | w0 # rest \<Rightarrow> w0\<lparr>selections := sels\<rparr> # rest);
               weeks2 = (if repeatWeeks prev then syncRepeatedWeeks weeks1 sels else weeks1)
           in prev\<lparr>weeks := weeks2\<rparr>))"

definition handleClearSelection :: "string \<Rightarrow> PlannerState \<Rightarrow> PlannerState" where
  "handleClearSelection oid prev =
     (case weeks prev of
        [] \<Rightarrow> prev
      | w0 # rest \<Rightarrow>
          if oid |\<notin>| fmdom (selections w0) then prev
          else
            (let sels = fmdrop oid (selections w0);
                 wks = w0\<lparr>selections := sels\<rparr> #
                         map (\<lambda>week. if \<not> repeatWeeks prev then week
                                     else week\<lparr>selections := fmempty\<rparr>) rest;
                 syncedWeeks = (if repeatWeeks prev then syncRepeatedWeeks wks sels else wks)
             in prev\<lparr>weeks := syncedWeeks\<rparr>))"

definition handleClearAll :: "PlannerState \<Rightarrow> PlannerState" where
  "handleClearAll prev =
     (case weeks prev of
        [] \<Rightarrow> prev
      | w0 # rest \<Rightarrow>
          if fcard (fmdom (selections w0)) = 0 then prev
          else
            (let clearedWeeks = w0\<lparr>selections := fmempty\<rparr> #
                         map (\<lambda>week. if \<not> repeatWeeks prev then week
                                     else week\<lparr>selections := fmempty\<rparr>) rest;
                 syncedWeeks = (if repeatWeeks prev then syncRepeatedWeeks clearedWeeks fmempty
                                else clearedWeeks)
             in prev\<lparr>weeks := syncedWeeks\<rparr>))"

definition handleWeekSelect :: "dateShift \<Rightarrow> string option \<Rightarrow> PlannerState \<Rightarrow> PlannerState" where
  "handleWeekSelect sh baseWeekStart prev =
     prev\<lparr>weeks := ensureWeeks sh [createWeekPlan baseWeekStart True fmempty]
                      (clampNumber (num (weeksCount prev)) 1 MAX_WEEKS) baseWeekStart
                      (repeatWeeks prev)\<rparr>"

definition handleWeeksCountChange :: "dateShift \<Rightarrow> jsnum \<Rightarrow> PlannerState \<Rightarrow> PlannerState" where
  "handleWeeksCountChange sh v prev =
     (let target = clampNumber v 1 MAX_WEEKS
      in if target = weeksCount prev then prev
         else
           (let baseWeekStart = firstWeekStart (weeks prev);
                wks = ensureWeeks sh (weeks prev) target baseWeekStart (repeatWeeks prev)
            in prev\<lparr>weeksCount := target, weeks := wks\<rparr>))"

text \<open>
  \<open>handleRepeatToggle\<close> passes \<open>prev.weeksCount\<close> to \<open>ensureWeeks\<close> as it is; with no week
  built, \<open>weeks[0].selections\<close> throws.
\<close>

definition handleRepeatToggle :: "dateShift \<Rightarrow> bool \<Rightarrow> PlannerState \<Rightarrow> jsError + PlannerState" where
  "handleRepeatToggle sh v prev =
     (if v = repeatWeeks prev then Inr prev
      else
        (let baseWeekStart = firstWeekStart (weeks prev);
             weeks0 = ensureWeeks sh (weeks prev) (weeksCount prev) baseWeekStart v
         in if v then
              (case weeks0 of
                 [] \<Rightarrow> Inl TypeError
               | w0 # _ \<Rightarrow>
                   Inr (prev\<lparr>repeatWeeks := v, weeks := syncRepeatedWeeks weeks0 (selections w0)\<rparr>))
            else Inr (prev\<lparr>repeatWeeks := v, weeks := weeks0\<rparr>)))"

text \<open>\<open>updateWeekPlan\<close>; the index is an array position, so \<open>index < 0\<close> cannot hold.\<close>

definition updateWeekPlan ::
  "dateShift \<Rightarrow> nat \<Rightarrow> (WeekPlan \<Rightarrow> WeekPlan) \<Rightarrow> PlannerState \<Rightarrow> PlannerState" where
  "updateWeekPlan sh index updater prev =
     (let targetCount = clampNumber (num (weeksCount prev)) 1 MAX_WEEKS;
          baseWeekStart = firstWeekStart (weeks prev);
          weeks0 = ensureWeeks sh (weeks prev) targetCount baseWeekStart (repeatWeeks prev)
      in if index \<ge> length weeks0 then prev
         else
           (let updated = updater (weeks0 ! index);
                weeks1 = map (\<lambda>(idx, week).
                                if idx = index
                                then updated\<lparr>enabled := (if idx = 0 then True else enabled updated)\<rparr>
                                else week)
                           (List.enumerate 0 weeks0);
                weeks2 = (if repeatWeeks prev \<and> index = 0
                          then (case weeks1 of
                                  [] \<Rightarrow> weeks1
                                | w0 # _ \<Rightarrow> syncRepeatedWeeks weeks1 (selections w0))
                          else weeks1)
            in if areWeeksEqual weeks2 (weeks prev) then prev else prev\<lparr>weeks := weeks2\<rparr>))"

section \<open>The weeks dialog (WeeksModal)\<close>

text \<open>\<open>weeks.slice(0, weeksCount)\<close>: a negative end counts from the end of the array.\<close>

definition activeWeeks :: "WeekPlan list \<Rightarrow> int \<Rightarrow> WeekPlan list" where
  "activeWeeks wks wc =
     (if wc < 0 then take (nat (int (length wks) + wc)) wks else take (nat wc) wks)"

definition activeWeek :: "WeekPlan list \<Rightarrow> int \<Rightarrow> nat \<Rightarrow> WeekPlan option" where
  "activeWeek wks wc activeIndex =
     (let aw = activeWeeks wks wc
      in if activeIndex < length aw then Some (aw ! activeIndex)
         else (case aw of [] \<Rightarrow> None | w # _ \<Rightarrow> Some w))"

definition isEditable :: "bool \<Rightarrow> nat \<Rightarrow> bool" where
  "isEditable rep activeIndex = (\<not> rep \<or> activeIndex = 0)"

definition toggleUpdater :: "string \<Rightarrow> string \<Rightarrow> WeekPlan \<Rightarrow> WeekPlan" where
  "toggleUpdater oid dayName week =
     (if oid |\<in>| fmdom (selections week)
      then week\<lparr>selections := fmdrop oid (selections week)\<rparr>
      else week\<lparr>selections :=
                  fmupd oid \<lparr>offerId = oid, day = dayName, portions = 1\<rparr> (selections week)\<rparr>)"

definition portionsUpdater :: "string \<Rightarrow> int \<Rightarrow> WeekPlan \<Rightarrow> WeekPlan" where
  "portionsUpdater oid p week =
     (case fmlookup (selections week) oid of
        None \<Rightarrow> week
      | Some current \<Rightarrow>
          (let clamped = min (max p 1) MAX_PORTIONS
           in week\<lparr>selections := fmupd oid (current\<lparr>portions := clamped\<rparr>) (selections week)\<rparr>))"

definition modalToggleDay :: "dateShift \<Rightarrow> nat \<Rightarrow> MenuDay \<Rightarrow> PlannerState \<Rightarrow> PlannerState" where
  "modalToggleDay sh activeIndex dayItem st =
     (case md_offerId dayItem of
        None \<Rightarrow> st
      | Some oid \<Rightarrow>
          if \<not> isEditable (repeatWeeks st) activeIndex \<or> oid = []
             \<or> activeWeek (weeks st) (weeksCount st) activeIndex = None
          then st
          else updateWeekPlan sh activeIndex (toggleUpdater oid (md_day dayItem)) st)"

definition modalChangePortions ::
  "dateShift \<Rightarrow> nat \<Rightarrow> string \<Rightarrow> int \<Rightarrow> PlannerState \<Rightarrow> PlannerState" where
  "modalChangePortions sh activeIndex oid p st =
     (if \<not> isEditable (repeatWeeks st) activeIndex
         \<or> activeWeek (weeks st) (weeksCount st) activeIndex = None
      then st
      else updateWeekPlan sh activeIndex (portionsUpdater oid p) st)"

definition handleToggleWeekEnabled ::
  "dateShift \<Rightarrow> nat \<Rightarrow> bool \<Rightarrow> PlannerState \<Rightarrow> PlannerState" where
  "handleToggleWeekEnabled sh index en st =
     (if index = 0 then st else updateWeekPlan sh index (\<lambda>week. week\<lparr>enabled := en\<rparr>) st)"

text \<open>The callbacks of the page and of the dialog that edit the selections of the first week.\<close>

datatype edit =
    ToggleDay MenuDay
  | ChangePortions string int
  | ApplyPreset PlannerPreset
  | ClearSelection string
  | ClearAll
  | InitialDay string
  | ModalToggleDay MenuDay
  | ModalChangePortions string int

fun applyEdit :: "dateShift \<Rightarrow> MenuResponse option \<Rightarrow> edit \<Rightarrow> PlannerState \<Rightarrow> PlannerState" where
  "applyEdit sh menu (ToggleDay d) st = handleToggleDay sh menu d st"
| "applyEdit sh menu (ChangePortions oid p) st = handleChangePortions sh menu oid p st"
| "applyEdit sh menu (ApplyPreset preset) st = handleApplyPreset sh menu preset st"
| "applyEdit sh menu (ClearSelection oid) st = handleClearSelection oid st"
| "applyEdit sh menu ClearAll st = handleClearAll st"
| "applyEdit sh menu (InitialDay name) st = initialDayEffect sh menu (Some name) st"
| "applyEdit sh menu (ModalToggleDay d) st = modalToggleDay sh 0 d st"
| "applyEdit sh menu (ModalChangePortions oid p) st = modalChangePortions sh 0 oid p st"

text \<open>Every state update of the page.\<close>

datatype plannerOp =
    Normalize
  | WeeksCountChange jsnum
  | RepeatToggle bool
  | UpdateWeek nat "WeekPlan \<Rightarrow> WeekPlan"
  | ToggleWeekEnabled nat bool
  | WeekSelect "string option"
  | Edit edit

fun applyOp ::
  "dateShift \<Rightarrow> MenuResponse option \<Rightarrow> plannerOp \<Rightarrow> PlannerState \<Rightarrow> jsError + PlannerState" where
  "applyOp sh menu Normalize st = menuEffect sh menu st"
| "applyOp sh menu (WeeksCountChange v) st = Inr (handleWeeksCountChange sh v st)"
| "applyOp sh menu (RepeatToggle v) st = handleRepeatToggle sh v st"
| "applyOp sh menu (UpdateWeek index updater) st = Inr (updateWeekPlan sh index updater st)"
| "applyOp sh menu (ToggleWeekEnabled index en) st = Inr (handleToggleWeekEnabled sh index en st)"
| "applyOp sh menu (WeekSelect ws) st = Inr (handleWeekSelect sh ws st)"
| "applyOp sh menu (Edit e) st = Inr (applyEdit sh menu e st)"

text \<open>All later weeks hold the selections of the first week.\<close>

definition repeatSynced :: "WeekPlan list \<Rightarrow> bool" where
  "repeatSynced wks =
     (case wks of [] \<Rightarrow> True | w0 # rest \<Rightarrow> list_all (\<lambda>w. selections w = selections w0) rest)"

section \<open>The calculation request and the totals of the summary\<close>

definition primaryWeek :: "WeekPlan list \<Rightarrow> WeekPlan" where
  "primaryWeek wks = (case wks of [] \<Rightarrow> createWeekPlan None True fmempty | w # _ \<Rightarrow> w)"



text \<open>
  \<open>sortDays\<close> and \<open>buildSelectionEntries\<close>. The constant \<open>DAY_ORDER\<close> (five day names in
  Cyrillic) is the parameter \<open>dayOrder\<close>; a day that is not in it has rank 0.
\<close>

fun indexOf :: "string list \<Rightarrow> string \<Rightarrow> nat \<Rightarrow> nat option" where
  "indexOf [] name i = None"
| "indexOf (d # ds) name i = (if d = name then Some i else indexOf ds name (Suc i))"

definition dayRank :: "string list \<Rightarrow> string \<Rightarrow> nat" where
  "dayRank dayOrder name = (case indexOf dayOrder name 0 of None \<Rightarrow> 0 | Some i \<Rightarrow> i)"

definition sortDays :: "string list \<Rightarrow> MenuDay list \<Rightarrow> MenuDay list" where
  "sortDays dayOrder days = sort_key (\<lambda>d. dayRank dayOrder (md_day d)) days"

definition buildSelectionEntries ::
  "string list \<Rightarrow> MenuDay list \<Rightarrow> Selections \<Rightarrow> (MenuDay \<times> Selection) list" where
  "buildSelectionEntries dayOrder menuDays sels =
     sort_key (\<lambda>e. dayRank dayOrder (md_day (fst e)))
       (List.map_filter
          (\<lambda>item. case md_offerId item of
                     None \<Rightarrow> None
                   | Some oid \<Rightarrow>
                       if oid = [] then None
                       else (case fmlookup sels oid of
                               None \<Rightarrow> None
                             | Some sel \<Rightarrow> Some (item, sel)))
          menuDays)"

definition selectionEntries ::
  "string list \<Rightarrow> MenuResponse option \<Rightarrow> PlannerState \<Rightarrow> (MenuDay \<times> Selection) list" where
  "selectionEntries dayOrder menu st =
     buildSelectionEntries dayOrder
       (case menu of None \<Rightarrow> [] | Some m \<Rightarrow> sortDays dayOrder (menu_items m))
       (selections (primaryWeek (weeks st)))"

definition baseSubtotalFallback :: "(MenuDay \<times> Selection) list \<Rightarrow> int" where
  "baseSubtotalFallback entries =
     foldl (\<lambda>sum entry. sum + portions (snd entry) * md_priceAmount (fst entry)) 0 entries"

definition totalEnabledWeeks :: "PlannerState \<Rightarrow> int" where
  "totalEnabledWeeks st =
     foldl (\<lambda>count (index, week). if index = 0 \<or> enabled week then count + 1 else count) 0
       (List.enumerate 0 (activeWeeks (weeks st) (clampNumber (num (weeksCount st)) 1 MAX_WEEKS)))"

text \<open>The fields of \<open>OrderCalcResponse\<close> that the totals read.\<close>

record OrderCalcResponse =
  calc_subtotal :: int
  calc_discount :: int
  calc_total :: int

definition overallSubtotal ::
  "string list \<Rightarrow> OrderCalcResponse option \<Rightarrow> MenuResponse option \<Rightarrow> PlannerState \<Rightarrow> int" where
  "overallSubtotal dayOrder calc menu st =
     (case calc of
        Some d \<Rightarrow> calc_subtotal d
      | None \<Rightarrow>
          if repeatWeeks st
          then baseSubtotalFallback (selectionEntries dayOrder menu st) * totalEnabledWeeks st
          else baseSubtotalFallback (selectionEntries dayOrder menu st))"

definition overallDiscount :: "OrderCalcResponse option \<Rightarrow> int" where
  "overallDiscount calc = (case calc of Some d \<Rightarrow> calc_discount d | None \<Rightarrow> 0)"

definition overallTotal ::
  "string list \<Rightarrow> OrderCalcResponse option \<Rightarrow> MenuResponse option \<Rightarrow> PlannerState \<Rightarrow> int" where
  "overallTotal dayOrder calc menu st =
     (case calc of
        Some d \<Rightarrow> calc_total d
      | None \<Rightarrow> max (overallSubtotal dayOrder calc menu st - overallDiscount calc) 0)"

text \<open>
  Modelled from the spec: the pricing calculator of the backend (\<open>/orders/calc\<close>), which is
  not among the sources. Section 4.4, step 5: the total is the subtotal less the discount,
  and never below zero.
\<close>

definition quoteTotal :: "int \<Rightarrow> int \<Rightarrow> int" where
  "quoteTotal subtotal discount = max (subtotal - discount) 0"

definition serverQuote :: "int \<Rightarrow> int \<Rightarrow> OrderCalcResponse" where
  "serverQuote subtotal discount =
     \<lparr>calc_subtotal = subtotal, calc_discount = discount,
      calc_total = quoteTotal subtotal discount\<rparr>"

section \<open>Restoring the stored state (loadInitialState)\<close>

text \<open>
  The value that \<open>JSON.parse\<close> returns. The properties of an object are listed in the order
  in which \<open>Object.entries\<close> enumerates them.
\<close>

datatype json =
    JNull
  | JBool bool
  | JNum jsnum
  | JStr string
  | JArr "json list"
  | JObj "(string \<times> json) list"

text \<open>
  What the page finds in local storage: no \<open>window\<close> (server rendering), no item or an
  empty one, an item on which \<open>getItem\<close> or \<open>JSON.parse\<close> throws, or a parsed value.
\<close>

datatype stored = NoWindow | NoItem | Unparsable | Parsed json

text \<open>
  The state that \<open>loadInitialState\<close> returns. The stored JSON is not validated field by
  field, so \<open>weeksCount\<close> can be NaN (\<open>None\<close>) and \<open>repeatWeeks\<close>, \<open>address\<close> and
  \<open>promoCode\<close> can hold any JSON value.
\<close>

record RestoredState =
  r_weeks :: "WeekPlan list"
  r_weeksCount :: "int option"
  r_repeatWeeks :: json
  r_address :: json
  r_promoCode :: json

text \<open>
  \<open>IllTypedWeekStart j\<close>: the legacy \<open>weekStart\<close> property holds \<open>j\<close>, which is neither a
  string nor null; it would be kept in a field typed \<open>string | null\<close>, and the model of the
  planner does not follow such a state.
\<close>

datatype loadResult = Loaded RestoredState | IllTypedWeekStart json

definition DEFAULT_STATE :: PlannerState where
  "DEFAULT_STATE =
     \<lparr>weeks = [createWeekPlan None True fmempty], weeksCount = 1, repeatWeeks = True,
      address = [], promoCode = []\<rparr>"

definition restoredOf :: "PlannerState \<Rightarrow> RestoredState" where
  "restoredOf st =
     \<lparr>r_weeks = weeks st, r_weeksCount = Some (weeksCount st),
      r_repeatWeeks = JBool (repeatWeeks st), r_address = JStr (address st),
      r_promoCode = JStr (promoCode st)\<rparr>"

text \<open>Reading a property: \<open>undefined\<close> is \<open>None\<close>. Only objects have the names the page reads.\<close>

fun getProp :: "json \<Rightarrow> string \<Rightarrow> json option" where
  "getProp (JObj kvs) name = map_of kvs name"
| "getProp _ name = None"

text \<open>Optional chaining \<open>week?.name\<close>.\<close>

definition optProp :: "json \<Rightarrow> string \<Rightarrow> json option" where
  "optProp j name = (case j of JNull \<Rightarrow> None | _ \<Rightarrow> getProp j name)"

text \<open>\<open>a ?? b\<close> on a JSON value that may be undefined.\<close>

definition coalesce :: "json option \<Rightarrow> json \<Rightarrow> json" where
  "coalesce a b = (case a of None \<Rightarrow> b | Some JNull \<Rightarrow> b | Some j \<Rightarrow> j)"

definition truthy :: "json \<Rightarrow> bool" where
  "truthy j =
     (case j of
        JNull \<Rightarrow> False
      | JBool b \<Rightarrow> b
      | JNum n \<Rightarrow> (case n of Fin q \<Rightarrow> q \<noteq> 0 | NaN \<Rightarrow> False | _ \<Rightarrow> True)
      | JStr s \<Rightarrow> s \<noteq> []
      | _ \<Rightarrow> True)"

text \<open>\<open>rawValue && typeof rawValue === "object"\<close>: arrays and objects.\<close>

definition isObject :: "json \<Rightarrow> bool" where
  "isObject j = (case j of JArr _ \<Rightarrow> True | JObj _ \<Rightarrow> True | _ \<Rightarrow> False)"

text \<open>
  Conversion to a number (\<open>Number(x)\<close>, and the conversion inside \<open>Math.floor\<close>). On
  strings, arrays and objects it is the parameter \<open>coerce\<close>.
\<close>

definition toNumber :: "(json \<Rightarrow> jsnum) \<Rightarrow> json option \<Rightarrow> jsnum" where
  "toNumber coerce x =
     (case x of
        None \<Rightarrow> NaN
      | Some JNull \<Rightarrow> Fin 0
      | Some (JBool b) \<Rightarrow> Fin (if b then 1 else 0)
      | Some (JNum n) \<Rightarrow> n
      | Some j \<Rightarrow> coerce j)"

text \<open>The decimal text of an array index.\<close>

fun showNat :: "nat \<Rightarrow> string" where
  "showNat n =
     (if n < 10 then [char_of (48 + n)]
      else showNat (n div 10) @ [char_of (48 + n mod 10)])"

definition objectEntries :: "json \<Rightarrow> (string \<times> json) list" where
  "objectEntries j =
     (case j of
        JObj kvs \<Rightarrow> kvs
      | JArr vs \<Rightarrow> zip (map showNat [0..<length vs]) vs
      | _ \<Rightarrow> [])"

text \<open>
  \<open>Number.isFinite(rawPortions) && rawPortions > 0 ? Math.min(Math.floor(rawPortions),
  MAX_PORTIONS) : 1\<close>.
\<close>

definition restoredPortions :: "jsnum \<Rightarrow> int" where
  "restoredPortions rawPortions =
     (case rawPortions of
        Fin q \<Rightarrow> if q > 0 then min \<lfloor>q\<rfloor> MAX_PORTIONS else 1
      | _ \<Rightarrow> 1)"

fun normalizeLoop :: "(json \<Rightarrow> jsnum) \<Rightarrow> (string \<times> json) list \<Rightarrow> Selections \<Rightarrow> Selections" where
  "normalizeLoop coerce [] result = result"
| "normalizeLoop coerce ((key, rawValue) # rest) result =
     (if \<not> isObject rawValue then normalizeLoop coerce rest result
      else
        (let ident = (case getProp rawValue ''offerId'' of Some (JStr s) \<Rightarrow> s | _ \<Rightarrow> key);
             d = (case getProp rawValue ''day'' of Some (JStr s) \<Rightarrow> s | _ \<Rightarrow> []);
             rawPortions = toNumber coerce (getProp rawValue ''portions'');
             p = restoredPortions rawPortions
         in normalizeLoop coerce rest
              (fmupd ident \<lparr>offerId = ident, day = d, portions = p\<rparr> result)))"

definition normalizeSelections :: "(json \<Rightarrow> jsnum) \<Rightarrow> json option \<Rightarrow> Selections" where
  "normalizeSelections coerce input =
     (case input of
        None \<Rightarrow> fmempty
      | Some j \<Rightarrow> if \<not> isObject j then fmempty else normalizeLoop coerce (objectEntries j) fmempty)"

text \<open>
  \<open>clampNumber\<close> on a value that need not be a number: \<open>Number.isNaN\<close> does not convert
  its argument, \<open>Math.floor\<close> does, and NaN then passes through \<open>Math.max\<close> and
  \<open>Math.min\<close>. \<open>None\<close> is the result NaN.
\<close>

definition clampNumberUntyped :: "(json \<Rightarrow> jsnum) \<Rightarrow> json \<Rightarrow> int \<Rightarrow> int \<Rightarrow> int option" where
  "clampNumberUntyped coerce v lo hi =
     (case v of
        JNum n \<Rightarrow> Some (clampNumber n lo hi)
      | _ \<Rightarrow> (case toNumber coerce (Some v) of
                NaN \<Rightarrow> None
              | n \<Rightarrow> Some (clampNumber n lo hi)))"

text \<open>\<open>ensureWeeks\<close> with a count that may be NaN: \<open>index < NaN\<close> is false.\<close>

definition ensureWeeksNaN ::
  "dateShift \<Rightarrow> WeekPlan list \<Rightarrow> int option \<Rightarrow> string option \<Rightarrow> bool \<Rightarrow> WeekPlan list" where
  "ensureWeeksNaN sh wks targetCount baseWeekStart rep =
     (case targetCount of None \<Rightarrow> [] | Some n \<Rightarrow> ensureWeeks sh wks n baseWeekStart rep)"

definition restoreWeek :: "(json \<Rightarrow> jsnum) \<Rightarrow> nat \<times> json \<Rightarrow> WeekPlan" where
  "restoreWeek coerce iw =
     (case iw of (index, week) \<Rightarrow>
        \<lparr>weekStart = (case optProp week ''weekStart'' of Some (JStr s) \<Rightarrow> Some s | _ \<Rightarrow> None),
         selections = normalizeSelections coerce (optProp week ''selections''),
         enabled = (if index = 0 then True else optProp week ''enabled'' \<noteq> Some (JBool False))\<rparr>)"

definition loadInitialState :: "dateShift \<Rightarrow> (json \<Rightarrow> jsnum) \<Rightarrow> stored \<Rightarrow> loadResult" where
  "loadInitialState sh coerce item =
     (case item of
        NoWindow \<Rightarrow> Loaded (restoredOf DEFAULT_STATE)
      | NoItem \<Rightarrow> Loaded (restoredOf DEFAULT_STATE)
      | Unparsable \<Rightarrow> Loaded (restoredOf DEFAULT_STATE)
      | Parsed JNull \<Rightarrow> Loaded (restoredOf DEFAULT_STATE)
      | Parsed parsed \<Rightarrow>
          (case getProp parsed ''weeks'' of
             Some (JArr rawWeeks) \<Rightarrow>
               (let wks = map (restoreWeek coerce) (List.enumerate 0 rawWeeks);
                    wc = clampNumberUntyped coerce
                           (coalesce (getProp parsed ''weeksCount'') (JNum (num (int (length wks)))))
                           1 MAX_WEEKS;
                    rep = coalesce (getProp parsed ''repeatWeeks'') (JBool True);
                    baseWeekStart = firstWeekStart wks;
                    normalizedWeeks =
                      ensureWeeksNaN sh
                        (if length wks > 0 then wks else [createWeekPlan baseWeekStart True fmempty])
                        wc baseWeekStart (truthy rep)
                in Loaded
                     \<lparr>r_weeks = normalizedWeeks, r_weeksCount = wc, r_repeatWeeks = rep,
                      r_address = coalesce (getProp parsed ''address'') (JStr []),
                      r_promoCode = coalesce (getProp parsed ''promoCode'') (JStr [])\<rparr>)
           | _ \<Rightarrow>
               (let legacySelections = normalizeSelections coerce (getProp parsed ''selections'');
                    rep = coalesce (getProp parsed ''repeatWeeks'') (JBool True);
                    wc = clampNumberUntyped coerce
                           (coalesce (getProp parsed ''weeksCount'') (JNum (num 1))) 1 MAX_WEEKS
                in case coalesce (getProp parsed ''weekStart'') JNull of
                     JNull \<Rightarrow>
                       Loaded
                         \<lparr>r_weeks = ensureWeeksNaN sh [createWeekPlan None True legacySelections]
                                      wc None (truthy rep),
                          r_weeksCount = wc, r_repeatWeeks = rep,
                          r_address = coalesce (getProp parsed ''address'') (JStr []),
                          r_promoCode = coalesce (getProp parsed ''promoCode'') (JStr [])\<rparr>
                   | JStr s \<Rightarrow>
                       Loaded
                         \<lparr>r_weeks = ensureWeeksNaN sh [createWeekPlan (Some s) True legacySelections]
                                      wc (Some s) (truthy rep),
                          r_weeksCount = wc, r_repeatWeeks = rep,
                          r_address = coalesce (getProp parsed ''address'') (JStr []),
                          r_promoCode = coalesce (getProp parsed ''promoCode'') (JStr [])\<rparr>
                   | j \<Rightarrow> IllTypedWeekStart j)))"

section \<open>The count of the order wizard (frontend/app/order/new/page.tsx)\<close>

text \<open>The wizard starts with \<open>count = 1\<close> and offers one button for each of these values.\<close>

definition COUNT_OPTIONS :: "int list" where
  "COUNT_OPTIONS = [1, 2, 3, 4]"

definition clickCount :: "nat \<Rightarrow> int \<Rightarrow> int" where
  "clickCount i count = (if i < length COUNT_OPTIONS then COUNT_OPTIONS ! i else count)"

definition countAfter :: "nat list \<Rightarrow> int" where
  "countAfter clicks = foldl (\<lambda>count i. clickCount i count) 1 clicks"

section \<open>Duplicate orders\<close>

text \<open>The 409 response that \<open>mutation.onError\<close> reads, and what the wizard then shows.\<close>

record ErrorResponse =
  resp_status :: int
  resp_code :: "string option"
  resp_orderId :: "string option"
  resp_day :: "string option"
  resp_count :: "json option"

record DuplicateInfo =
  dup_orderId :: string
  dup_day :: string
  dup_count :: "jsnum option"

datatype errorOutcome = ShowDuplicate DuplicateInfo | ShowAlert

text \<open>
  \<open>onError\<close>; an error without a response has no status. The last fallback of the day (a
  Cyrillic text) is the parameter \<open>fallbackDay\<close>.
\<close>

definition onError :: "string \<Rightarrow> string option \<Rightarrow> ErrorResponse option \<Rightarrow> errorOutcome" where
  "onError fallbackDay selectedDay err =
     (case err of
        None \<Rightarrow> ShowAlert
      | Some payload \<Rightarrow>
          if resp_status payload = 409 \<and> resp_code payload = Some ''duplicate_order''
          then ShowDuplicate
                 \<lparr>dup_orderId = (case resp_orderId payload of Some s \<Rightarrow> s | None \<Rightarrow> []),
                  dup_day = (case orElse (resp_day payload) selectedDay of
                               Some s \<Rightarrow> s | None \<Rightarrow> fallbackDay),
                  dup_count = (case resp_count payload of Some (JNum n) \<Rightarrow> Some n | _ \<Rightarrow> None)\<rparr>
          else ShowAlert)"

datatype OrderStatus = StatusNew | CancelledByCustomer | CancelledByOperator

datatype DayOfWeek = Mon | Tue | Wed | Thu | Fri

record Order =
  order_id :: string
  order_customer :: string
  order_day :: DayOfWeek
  order_weekStart :: string
  order_count :: int
  order_status :: OrderStatus
  order_createdAt :: nat

text \<open>
  Modelled from the spec: \<open>findActive\<close> of the Duplicate Resolver (section 4.3), backend
  code that is not among the sources. It scans only the orders with status new for the
  exact customer, day and week; of several it returns the most recently created one.
\<close>

definition isActiveFor :: "string \<Rightarrow> DayOfWeek \<Rightarrow> string \<Rightarrow> Order \<Rightarrow> bool" where
  "isActiveFor c d w ord =
     (order_status ord = StatusNew \<and> order_customer ord = c \<and> order_day ord = d \<and>
      order_weekStart ord = w)"

fun mostRecent :: "Order \<Rightarrow> Order list \<Rightarrow> Order" where
  "mostRecent best [] = best"
| "mostRecent best (ord # rest) =
     mostRecent (if order_createdAt ord > order_createdAt best then ord else best) rest"

definition findActive :: "Order list \<Rightarrow> string \<Rightarrow> DayOfWeek \<Rightarrow> string \<Rightarrow> Order option" where
  "findActive orders c d w =
     (case filter (isActiveFor c d w) orders of
        [] \<Rightarrow> None
      | ord # rest \<Rightarrow> Some (mostRecent ord rest))"

datatype OrderError =
    ValidationError
  | WindowClosedError
  | ThrottledError
  | DuplicateOrderError string int
  | CapacityExceededError int int

record CreateRequest =
  req_customer :: string
  req_day :: DayOfWeek
  req_weekStart :: string
  req_portions :: int

text \<open>
  Modelled from the spec: the guards of \<open>createOrder\<close> (sections 4.6 and 7), backend code
  that is not among the sources. The answers of the Calendar Oracle and of the throttle
  are parameters, and so is the committing step \<open>commit\<close> (the reservation in the Capacity
  Ledger together with the persisting of the order), which runs last.
\<close>

definition createOrder ::
  "bool \<Rightarrow> bool \<Rightarrow> (CreateRequest \<Rightarrow> Order list \<Rightarrow> OrderError + Order list) \<Rightarrow>
   Order list \<Rightarrow> CreateRequest \<Rightarrow> OrderError + Order list" where
  "createOrder orderable throttled commit orders req =
     (if req_portions req < 1 \<or> 4 < req_portions req then Inl ValidationError
      else if \<not> orderable then Inl WindowClosedError
      else if throttled then Inl ThrottledError
      else (case findActive orders (req_customer req) (req_day req) (req_weekStart req) of
              Some dup \<Rightarrow> Inl (DuplicateOrderError (order_id dup) (order_count dup))
            | None \<Rightarrow> commit req orders))"

section \<open>Predicates and closed forms used in the proofs\<close>

text \<open>What an edit of the first week leaves true of the state it returns.\<close>

definition editProps :: "PlannerState \<Rightarrow> PlannerState \<Rightarrow> bool" where
  "editProps st st' \<longleftrightarrow>
     (repeatWeeks st \<longrightarrow> repeatSynced (weeks st')) \<and>
     (\<forall>k. 0 < k \<and> k < length (weeks st) \<and> k < length (weeks st') \<longrightarrow>
          enabled (weeks st' ! k) = enabled (weeks st ! k)) \<and>
     (\<not> repeatWeeks st \<longrightarrow>
        (\<forall>k. 0 < k \<and> k < length (weeks st') \<longrightarrow>
             selections (weeks st' ! k) =
               (if k < length (weeks st) then selections (weeks st ! k) else fmempty))) \<and>
     (enabled (primaryWeek (weeks st)) \<longrightarrow> enabled (primaryWeek (weeks st'))) \<and>
     repeatWeeks st' = repeatWeeks st \<and> weeksCount st' = weeksCount st"

text \<open>
  The selections that survive the pruning step of the menu effect, and the week that the
  effect builds at one index.
\<close>

definition pruned :: "MenuResponse option \<Rightarrow> Selections \<Rightarrow> Selections" where
  "pruned menu s =
     (case menu of None \<Rightarrow> s | Some m \<Rightarrow> fmfilter (\<lambda>oid. oid \<in> set (validOfferIds m)) s)"

definition normWeekAt :: "dateShift \<Rightarrow> MenuResponse option \<Rightarrow> PlannerState \<Rightarrow> nat \<Rightarrow> WeekPlan" where
  "normWeekAt sh menu st k =
     (let e = ensureWeekAt sh (weeks st) (orElse (menuWeekStart menu) (firstWeekStart (weeks st)))
                (repeatWeeks st) k
      in if k = 0 \<or> repeatWeeks st
         then e\<lparr>selections := pruned menu (selections (primaryWeek (weeks st)))\<rparr>
         else e)"

definition dateRoundTrips :: "dateShift \<Rightarrow> nat \<Rightarrow> string \<Rightarrow> bool" where
  "dateRoundTrips sh n x =
     (case sh x 0 of
        None \<Rightarrow> True
      | Some s \<Rightarrow> s \<noteq> [] \<and> list_all (\<lambda>i. sh s i = sh x i) [0..<n])"

definition baseDateStable :: "dateShift \<Rightarrow> MenuResponse option \<Rightarrow> PlannerState \<Rightarrow> bool" where
  "baseDateStable sh menu st =
     (case (menuWeekStart menu, firstWeekStart (weeks st)) of
        (None, Some x) \<Rightarrow>
          x = [] \<or> dateRoundTrips sh (nat (clampNumber (num (weeksCount st)) 1 MAX_WEEKS)) x
      | _ \<Rightarrow> True)"

section \<open>Sample inputs\<close>

definition exShift :: dateShift where
  "exShift b i =
     (if b = ''2024-01-01'' \<and> i < 3
      then Some ([''2024-01-01'', ''2024-01-08'', ''2024-01-15''] ! i) else None)"

definition exMonday :: MenuDay where
  "exMonday = \<lparr>md_day = ''Mon'', md_offerId = Some ''mon'', md_status = Available,
               md_priceAmount = 1500\<rparr>"

definition exTuesday :: MenuDay where
  "exTuesday = \<lparr>md_day = ''Tue'', md_offerId = Some ''tue'', md_status = Available,
                md_priceAmount = 1200\<rparr>"

definition exMenu :: MenuResponse where
  "exMenu = \<lparr>menu_weekStart = Some ''2024-01-01'', menu_items = [exMonday, exTuesday]\<rparr>"

definition exMondayTwice :: Selections where
  "exMondayTwice = fmupd ''mon'' \<lparr>offerId = ''mon'', day = ''Mon'', portions = 2\<rparr> fmempty"

text \<open>Three weeks, repeat mode on, Monday twice in each week, the last week switched off.\<close>

definition exState :: PlannerState where
  "exState =
     \<lparr>weeks =
        [\<lparr>weekStart = Some ''2024-01-01'', selections = exMondayTwice, enabled = True\<rparr>,
         \<lparr>weekStart = Some ''2024-01-08'', selections = exMondayTwice, enabled = True\<rparr>,
         \<lparr>weekStart = Some ''2024-01-15'', selections = exMondayTwice, enabled = False\<rparr>],
      weeksCount = 3, repeatWeeks = True, address = [], promoCode = []\<rparr>"

definition exMenuEmpty :: MenuResponse where
  "exMenuEmpty = \<lparr>menu_weekStart = Some ''2024-01-01'', menu_items = []\<rparr>"

definition exStateOff :: PlannerState where
  "exStateOff =
     \<lparr>weeks =
        [\<lparr>weekStart = Some ''2024-01-01'', selections = exMondayTwice, enabled = True\<rparr>,
         \<lparr>weekStart = Some ''2024-01-08'',
          selections = fmupd ''tue'' \<lparr>offerId = ''tue'', day = ''Tue'', portions = 1\<rparr> fmempty,
          enabled = True\<rparr>,
         \<lparr>weekStart = Some ''2024-01-15'', selections = fmempty, enabled = False\<rparr>],
      weeksCount = 3, repeatWeeks = False, address = [], promoCode = []\<rparr>"

text \<open>
  The same three weeks with repeat mode on although the later weeks differ from the first.
\<close>

definition exStateSkew :: PlannerState where
  "exStateSkew = exStateOff\<lparr>repeatWeeks := True\<rparr>"

definition exStored :: json where
  "exStored =
     JObj [(''weeks'',
            JArr [JObj [(''weekStart'', JNull),
                        (''selections'',
                         JObj [(''mon'', JObj [(''offerId'', JStr ''mon''), (''day'', JStr ''Mon''),
                                               (''portions'', JNum (Fin (1 / 2)))])]),
                        (''enabled'', JBool True)]]),
           (''weeksCount'', JNum (Fin 1)),
           (''repeatWeeks'', JBool True),
           (''address'', JStr []),
           (''promoCode'', JStr [])]"

definition exOrders :: "Order list" where
  "exOrders =
     [\<lparr>order_id = ''A'', order_customer = ''alice'', order_day = Mon,
       order_weekStart = ''2024-01-01'', order_count = 2, order_status = StatusNew,
       order_createdAt = 1\<rparr>,
      \<lparr>order_id = ''B'', order_customer = ''alice'', order_day = Tue,
       order_weekStart = ''2024-01-01'', order_count = 1, order_status = CancelledByCustomer,
       order_createdAt = 2\<rparr>]"

definition exRequest :: "DayOfWeek \<Rightarrow> CreateRequest" where
  "exRequest d =
     \<lparr>req_customer = ''alice'', req_day = d, req_weekStart = ''2024-01-01'', req_portions = 2\<rparr>"

definition exCommit :: "CreateRequest \<Rightarrow> Order list \<Rightarrow> OrderError + Order list" where
  "exCommit req orders =
     Inr (\<lparr>order_id = ''C'', order_customer = req_customer req, order_day = req_day req,
           order_weekStart = req_weekStart req, order_count = req_portions req,
           order_status = StatusNew, order_createdAt = 3\<rparr> # orders)"

section \<open>Basic facts\<close>

lemma cloneSelections_id [simp]: "cloneSelections s = s"
  by (rule fmap_ext) (simp add: cloneSelections_def option.map_ident)

lemma Selection_fields_eq:
  "(offerId a = offerId b \<and> day a = day b \<and> portions a = portions b) \<longleftrightarrow> a = (b :: Selection)"
  by auto

lemma areSelectionMapsEqual_iff [simp]: "areSelectionMapsEqual l r \<longleftrightarrow> l = r"
proof
  assume eq: "areSelectionMapsEqual l r"
  then have card: "fcard (fmdom l) = fcard (fmdom r)"
    by (simp add: areSelectionMapsEqual_def split: if_splits)
  from eq have ball: "fBall (fmdom l) (\<lambda>key.
             case (fmlookup l key, fmlookup r key) of
               (Some a, Some b) \<Rightarrow>
                 \<not> (offerId a \<noteq> offerId b \<or> day a \<noteq> day b \<or> portions a \<noteq> portions b)
             | _ \<Rightarrow> False)"
    by (simp add: areSelectionMapsEqual_def split: if_splits)
  have pt: "fmlookup l k = fmlookup r k \<and> k |\<in>| fmdom r" if "k |\<in>| fmdom l" for k
  proof -
    from ball that
    have c: "case (fmlookup l k, fmlookup r k) of
               (Some a, Some b) \<Rightarrow>
                 \<not> (offerId a \<noteq> offerId b \<or> day a \<noteq> day b \<or> portions a \<noteq> portions b)
             | _ \<Rightarrow> False"
      by (simp add: fBall_alt_def)
    then obtain a b where ab: "fmlookup l k = Some a" "fmlookup r k = Some b"
      by (cases "fmlookup l k"; cases "fmlookup r k") auto
    with c have "a = b" by simp
    with ab show ?thesis by (simp add: fmdomI)
  qed
  then have "fmdom l |\<subseteq>| fmdom r" by auto
  with card have dom: "fmdom l = fmdom r"
    by (simp add: fcard_seteq)
  show "l = r"
  proof (rule fmap_ext)
    fix k
    show "fmlookup l k = fmlookup r k"
    proof (cases "k |\<in>| fmdom l")
      case True
      then show ?thesis using pt by simp
    next
      case False
      then have "fmlookup l k = None" by (simp add: fmdom_notD)
      moreover from False dom have "fmlookup r k = None" by (simp add: fmdom_notD)
      ultimately show ?thesis by simp
    qed
  qed
next
  assume "l = r"
  then show "areSelectionMapsEqual l r"
    by (auto simp: areSelectionMapsEqual_def fBall_alt_def split: option.splits)
qed

lemma areWeeksEqualLoop_iff:
  "length l = length r \<Longrightarrow> areWeeksEqualLoop l r \<longleftrightarrow> l = r"
  by (induction l r rule: areWeeksEqualLoop.induct) auto

lemma areWeeksEqual_iff [simp]: "areWeeksEqual l r \<longleftrightarrow> l = r"
  by (auto simp: areWeeksEqual_def areWeeksEqualLoop_iff)

lemma syncLoop_eq:
  "syncLoop ws b = (map (\<lambda>c. c\<lparr>selections := b\<rparr>) ws, \<exists>c \<in> set ws. selections c \<noteq> b)"
  by (induction ws) (auto simp: Let_def)

lemma syncRepeatedWeeks_eq:
  "syncRepeatedWeeks wks b =
     (case wks of [] \<Rightarrow> [] | first # rest \<Rightarrow> first # map (\<lambda>c. c\<lparr>selections := b\<rparr>) rest)"
proof (cases wks)
  case Nil
  then show ?thesis by (simp add: syncRepeatedWeeks_def)
next
  case (Cons first rest)
  have "\<not> (\<exists>c \<in> set rest. selections c \<noteq> b) \<Longrightarrow> map (\<lambda>c. c\<lparr>selections := b\<rparr>) rest = rest"
    by (induction rest) auto
  then show ?thesis
    using Cons by (auto simp: syncRepeatedWeeks_def syncLoop_eq)
qed

lemma length_ensureWeeks [simp]: "length (ensureWeeks sh w n b r) = nat n"
  by (simp add: ensureWeeks_def)

lemma nth_ensureWeeks [simp]:
  "k < nat n \<Longrightarrow> ensureWeeks sh w n b r ! k = ensureWeekAt sh w b r k"
  by (simp add: ensureWeeks_def)

lemma clampNumber_bounds: "lo \<le> hi \<Longrightarrow> lo \<le> clampNumber v lo hi \<and> clampNumber v lo hi \<le> hi"
  by (cases v) (auto simp: clampNumber_def)

lemma clampNumber_num: "clampNumber (num n) lo hi = min (max n lo) hi"
  by (simp add: clampNumber_def num_def)

lemma clampWeeks_pos [simp]: "0 < nat (clampNumber v 1 MAX_WEEKS)"
  using clampNumber_bounds [of 1 MAX_WEEKS v] by (simp add: MAX_WEEKS_def)

lemma clampWeeks_le: "clampNumber v 1 MAX_WEEKS \<le> 8" "1 \<le> clampNumber v 1 MAX_WEEKS"
  using clampNumber_bounds [of 1 MAX_WEEKS v] by (simp_all add: MAX_WEEKS_def)

lemma selections_primaryWeek:
  "selections (primaryWeek w) = (case w of [] \<Rightarrow> fmempty | w0 # _ \<Rightarrow> selections w0)"
  by (simp add: primaryWeek_def createWeekPlan_def split: list.splits)

lemma selections_ensureWeekAt:
  "selections (ensureWeekAt sh w b r k) =
     (if k = 0 \<or> r then selections (primaryWeek w)
      else if k < length w then selections (w ! k) else fmempty)"
  by (cases w) (auto simp: ensureWeekAt_def Let_def primaryWeek_def createWeekPlan_def)

lemma enabled_ensureWeekAt:
  "enabled (ensureWeekAt sh w b r k) = (if k = 0 then True else if k < length w then enabled (w ! k) else True)"
  by (auto simp: ensureWeekAt_def Let_def)

lemma ensureWeeks_Cons:
  "0 < nat n \<Longrightarrow> ensureWeeks sh w n b r = ensureWeekAt sh w b r 0 # map (ensureWeekAt sh w b r) [1..<nat n]"
  by (simp add: ensureWeeks_def upt_conv_Cons)

lemma length_sync [simp]: "length (syncRepeatedWeeks wks b) = length wks"
  by (simp add: syncRepeatedWeeks_eq split: list.splits)

lemma nth_sync:
  "k < length wks \<Longrightarrow> syncRepeatedWeeks wks b ! k = (if k = 0 then wks ! 0 else (wks ! k)\<lparr>selections := b\<rparr>)"
  by (cases wks; cases k) (auto simp: syncRepeatedWeeks_eq)

lemma repeatSynced_iff:
  "repeatSynced wks \<longleftrightarrow> (\<forall>k. 0 < k \<and> k < length wks \<longrightarrow> selections (wks ! k) = selections (wks ! 0))"
proof (cases wks)
  case Nil
  then show ?thesis by (simp add: repeatSynced_def)
next
  case (Cons w0 rest)
  have "list_all (\<lambda>w. selections w = selections w0) rest \<longleftrightarrow>
        (\<forall>k. 0 < k \<and> k < Suc (length rest) \<longrightarrow> selections ((w0 # rest) ! k) = selections w0)"
  proof
    assume a: "list_all (\<lambda>w. selections w = selections w0) rest"
    show "\<forall>k. 0 < k \<and> k < Suc (length rest) \<longrightarrow> selections ((w0 # rest) ! k) = selections w0"
    proof (intro allI impI)
      fix k assume "0 < k \<and> k < Suc (length rest)"
      then obtain j where "k = Suc j" "j < length rest" by (cases k) auto
      with a show "selections ((w0 # rest) ! k) = selections w0"
        by (simp add: list_all_length)
    qed
  next
    assume a: "\<forall>k. 0 < k \<and> k < Suc (length rest) \<longrightarrow> selections ((w0 # rest) ! k) = selections w0"
    show "list_all (\<lambda>w. selections w = selections w0) rest"
      unfolding list_all_length
    proof (intro allI impI)
      fix j assume "j < length rest"
      with a [rule_format, of "Suc j"] show "selections (rest ! j) = selections w0" by simp
    qed
  qed
  with Cons show ?thesis by (simp add: repeatSynced_def)
qed

lemma editProps_refl_iff:
  "editProps st st \<longleftrightarrow> (repeatWeeks st \<longrightarrow> repeatSynced (weeks st))"
  by (auto simp: editProps_def)

lemma if_weeks_eq [simp]: "(if w = weeks st then st else st\<lparr>weeks := w\<rparr>) = st\<lparr>weeks := w\<rparr>"
  by simp

lemma ensureWeeks_clamp_ne [simp]: "ensureWeeks sh w (clampNumber v 1 MAX_WEEKS) b r \<noteq> []"
proof
  assume "ensureWeeks sh w (clampNumber v 1 MAX_WEEKS) b r = []"
  then have "length (ensureWeeks sh w (clampNumber v 1 MAX_WEEKS) b r) = 0" by simp
  then show False using clampWeeks_pos [of v] by (simp del: clampWeeks_pos)
qed

lemma ensureWeeks_hd:
  assumes "ensureWeeks sh w n b r = current # rest"
  shows "current = ensureWeekAt sh w b r 0" "Suc (length rest) = nat n"
    "\<And>j. Suc j < nat n \<Longrightarrow> rest ! j = ensureWeekAt sh w b r (Suc j)"
proof -
  show len: "Suc (length rest) = nat n"
    using assms length_ensureWeeks [of sh w n b r] by simp
  have "current = (current # rest) ! 0" by simp
  also have "\<dots> = ensureWeeks sh w n b r ! 0" by (simp only: assms)
  also have "\<dots> = ensureWeekAt sh w b r 0" using len by simp
  finally show "current = ensureWeekAt sh w b r 0" .
  fix j assume j: "Suc j < nat n"
  have "rest ! j = (current # rest) ! Suc j" by simp
  also have "\<dots> = ensureWeeks sh w n b r ! Suc j" by (simp only: assms)
  also have "\<dots> = ensureWeekAt sh w b r (Suc j)" using j by simp
  finally show "rest ! j = ensureWeekAt sh w b r (Suc j)" .
qed

lemma general_edit_props:
  assumes w0: "ensureWeeks sh (weeks st) n b (repeatWeeks st) = current # rest"
    and res: "res = (if repeatWeeks st \<and> c then syncRepeatedWeeks (f # rest) (selections f)
                     else f # rest)"
    and c: "repeatWeeks st \<Longrightarrow> c"
    and f: "enabled f"
  shows "editProps st (st\<lparr>weeks := res\<rparr>)"
proof -
  note hd = ensureWeeks_hd [OF w0]
  have len: "length res = nat n"
    using res hd(2) by (simp split: if_splits)
  have nth: "res ! k = (if repeatWeeks st
                        then (ensureWeekAt sh (weeks st) b (repeatWeeks st) k)\<lparr>selections := selections f\<rparr>
                        else ensureWeekAt sh (weeks st) b (repeatWeeks st) k)"
    if "0 < k" "k < nat n" for k
    using that res c hd(2) hd(3) by (cases k) (auto simp: nth_sync)
  have sync: "repeatWeeks st \<Longrightarrow> repeatSynced res"
    using res c by (simp add: syncRepeatedWeeks_eq repeatSynced_def list_all_iff)
  have en: "enabled (res ! k) = enabled (weeks st ! k)"
    if "0 < k" "k < length (weeks st)" "k < length res" for k
    using that nth [of k] len by (simp add: enabled_ensureWeekAt)
  have sel: "selections (res ! k) = (if k < length (weeks st) then selections (weeks st ! k) else fmempty)"
    if "\<not> repeatWeeks st" "0 < k" "k < length res" for k
    using that nth [of k] len by (simp add: selections_ensureWeekAt)
  have first: "enabled (primaryWeek res)"
    using res f by (simp add: primaryWeek_def syncRepeatedWeeks_eq)
  show ?thesis
    unfolding editProps_def using sync en sel first by simp
qed

lemma ensured_edit_props:
  assumes w0: "ensureWeeks sh (weeks st) n b (repeatWeeks st) = current # rest"
    and res: "res = (if repeatWeeks st then syncRepeatedWeeks (current\<lparr>selections := sels\<rparr> # rest) sels
                     else current\<lparr>selections := sels\<rparr> # rest)"
  shows "editProps st (st\<lparr>weeks := res\<rparr>)"
proof (rule general_edit_props [OF w0, where c = True and f = "current\<lparr>selections := sels\<rparr>"])
  show "res = (if repeatWeeks st \<and> True
               then syncRepeatedWeeks (current\<lparr>selections := sels\<rparr> # rest)
                      (selections (current\<lparr>selections := sels\<rparr>))
               else current\<lparr>selections := sels\<rparr> # rest)"
    using res by simp
  show "enabled (current\<lparr>selections := sels\<rparr>)"
    using ensureWeeks_hd(1) [OF w0] by (simp add: enabled_ensureWeekAt)
qed simp

lemma handleToggleDay_props:
  "handleToggleDay sh menu d st = st \<or> editProps st (handleToggleDay sh menu d st)"
  unfolding handleToggleDay_def Let_def
  by (auto split: option.splits list.splits intro!: ensured_edit_props)

lemma handleChangePortions_props:
  "handleChangePortions sh menu oid p st = st \<or> editProps st (handleChangePortions sh menu oid p st)"
  unfolding handleChangePortions_def Let_def
  by (auto split: option.splits list.splits intro!: ensured_edit_props)

lemma initialDayEffect_props:
  "initialDayEffect sh menu name st = st \<or> editProps st (initialDayEffect sh menu name st)"
  unfolding initialDayEffect_def Let_def
  by (auto split: option.splits list.splits prod.splits intro!: ensured_edit_props)

lemma handleApplyPreset_props:
  "handleApplyPreset sh menu preset st = st \<or> editProps st (handleApplyPreset sh menu preset st)"
proof (cases menu)
  case None
  then show ?thesis by (simp add: handleApplyPreset_def)
next
  case (Some m)
  obtain current rest where w0:
    "ensureWeeks sh (weeks st) (clampNumber (num (weeksCount st)) 1 MAX_WEEKS)
       (orElse (menu_weekStart m) (firstWeekStart (weeks st))) (repeatWeeks st) = current # rest"
    using ensureWeeks_clamp_ne [of sh "weeks st" "num (weeksCount st)"] by (meson list.exhaust)
  show ?thesis
    using Some w0 unfolding handleApplyPreset_def Let_def
    by (auto intro!: ensured_edit_props [OF w0])
qed

lemma cleared_props:
  assumes ws: "weeks st = w0 # rest"
    and res: "res = (let wks = w0\<lparr>selections := sels\<rparr> #
                         map (\<lambda>week. if \<not> repeatWeeks st then week
                                     else week\<lparr>selections := fmempty\<rparr>) rest
                     in if repeatWeeks st then syncRepeatedWeeks wks sels else wks)"
  shows "editProps st (st\<lparr>weeks := res\<rparr>)"
proof -
  have res': "res = w0\<lparr>selections := sels\<rparr> #
                (if repeatWeeks st then map (\<lambda>c. c\<lparr>selections := sels\<rparr>) rest else rest)"
    using res by (simp add: syncRepeatedWeeks_eq Let_def comp_def)
  have nth: "res ! k = (if repeatWeeks st then (weeks st ! k)\<lparr>selections := sels\<rparr> else weeks st ! k)"
    if "0 < k" "k < length (weeks st)" for k
    using that ws res' by (cases k) auto
  have len: "length res = length (weeks st)" using res' ws by simp
  show ?thesis
    unfolding editProps_def
    using nth len res' ws
    by (auto simp: repeatSynced_def list_all_iff primaryWeek_def)
qed

lemma handleClearSelection_props:
  "handleClearSelection oid st = st \<or> editProps st (handleClearSelection oid st)"
proof (cases "weeks st")
  case Nil
  then show ?thesis by (simp add: handleClearSelection_def)
next
  case (Cons w0 rest)
  show ?thesis
  proof (cases "oid |\<in>| fmdom (selections w0)")
    case False
    with Cons show ?thesis by (simp add: handleClearSelection_def)
  next
    case True
    have "editProps st (handleClearSelection oid st)"
      using Cons True cleared_props [OF Cons refl, of "fmdrop oid (selections w0)"]
      by (simp add: handleClearSelection_def Let_def)
    then show ?thesis ..
  qed
qed

lemma handleClearAll_props:
  "handleClearAll st = st \<or> editProps st (handleClearAll st)"
proof (cases "weeks st")
  case Nil
  then show ?thesis by (simp add: handleClearAll_def)
next
  case (Cons w0 rest)
  show ?thesis
  proof (cases "fcard (fmdom (selections w0)) = 0")
    case True
    with Cons show ?thesis by (simp add: handleClearAll_def)
  next
    case False
    have "editProps st (handleClearAll st)"
      using Cons False cleared_props [OF Cons refl, of fmempty]
      by (simp add: handleClearAll_def Let_def)
    then show ?thesis ..
  qed
qed

lemma map_enumerate_update:
  "map (\<lambda>(idx, week). if idx = index then g idx else week) (List.enumerate 0 ws) =
     (if index < length ws then ws[index := g index] else ws)"
  by (rule nth_equalityI) (auto simp: nth_enumerate_eq nth_list_update)

lemma updateWeekPlan_eq:
  "updateWeekPlan sh index u st =
     (let weeks0 = ensureWeeks sh (weeks st) (clampNumber (num (weeksCount st)) 1 MAX_WEEKS)
                     (firstWeekStart (weeks st)) (repeatWeeks st)
      in if index \<ge> length weeks0 then st
         else
           (let x = (u (weeks0 ! index))\<lparr>enabled := (if index = 0 then True else enabled (u (weeks0 ! index)))\<rparr>;
                weeks1 = weeks0[index := x]
            in st\<lparr>weeks := (if repeatWeeks st \<and> index = 0
                              then syncRepeatedWeeks weeks1 (selections x) else weeks1)\<rparr>))"
proof -
  define w0 where "w0 = ensureWeeks sh (weeks st) (clampNumber (num (weeksCount st)) 1 MAX_WEEKS)
                     (firstWeekStart (weeks st)) (repeatWeeks st)"
  define x where "x = (u (w0 ! index))\<lparr>enabled := (if index = 0 then True else enabled (u (w0 ! index)))\<rparr>"
  have m: "map (\<lambda>(idx, week).
                  if idx = index
                  then (u (w0 ! index))\<lparr>enabled := (if idx = 0 then True else enabled (u (w0 ! index)))\<rparr>
                  else week) (List.enumerate 0 w0) =
           (if index < length w0 then w0[index := x] else w0)"
    unfolding x_def
    by (rule map_enumerate_update
          [where g = "\<lambda>idx. (u (w0 ! index))\<lparr>enabled := (if idx = 0 then True else enabled (u (w0 ! index)))\<rparr>"])
  have c: "(case w0[index := x] of [] \<Rightarrow> w0[index := x]
            | w # _ \<Rightarrow> syncRepeatedWeeks (w0[index := x]) (selections w)) =
           syncRepeatedWeeks (w0[index := x]) (selections x)"
    if "index = 0" "index < length w0"
    using that by (cases w0) auto
  show ?thesis
    unfolding updateWeekPlan_def Let_def w0_def [symmetric] m
    using c by (auto simp: x_def)
qed

lemma updateWeekPlan_first_props:
  "updateWeekPlan sh 0 u st = st \<or> editProps st (updateWeekPlan sh 0 u st)"
proof -
  obtain current rest where w0:
    "ensureWeeks sh (weeks st) (clampNumber (num (weeksCount st)) 1 MAX_WEEKS)
       (firstWeekStart (weeks st)) (repeatWeeks st) = current # rest"
    using ensureWeeks_clamp_ne [of sh "weeks st" "num (weeksCount st)"] by (meson list.exhaust)
  define f where "f = (u current)\<lparr>enabled := True\<rparr>"
  have eq: "updateWeekPlan sh 0 u st =
            st\<lparr>weeks := (if repeatWeeks st \<and> True then syncRepeatedWeeks (f # rest) (selections f)
                          else f # rest)\<rparr>"
    unfolding updateWeekPlan_eq Let_def w0 f_def by simp
  have "editProps st (updateWeekPlan sh 0 u st)"
    unfolding eq by (rule general_edit_props [OF w0 refl]) (simp_all add: f_def)
  then show ?thesis ..
qed

lemma modalToggleDay_props:
  "modalToggleDay sh 0 d st = st \<or> editProps st (modalToggleDay sh 0 d st)"
  using updateWeekPlan_first_props [of sh _ st]
  by (auto simp: modalToggleDay_def split: option.splits)

lemma modalChangePortions_props:
  "modalChangePortions sh 0 oid p st = st \<or> editProps st (modalChangePortions sh 0 oid p st)"
  using updateWeekPlan_first_props [of sh _ st]
  by (auto simp: modalChangePortions_def)

lemma applyEdit_props:
  "applyEdit sh menu e st = st \<or> editProps st (applyEdit sh menu e st)"
  by (cases e)
     (simp_all add: handleToggleDay_props handleChangePortions_props handleApplyPreset_props
        handleClearSelection_props handleClearAll_props initialDayEffect_props
        modalToggleDay_props modalChangePortions_props)

lemma modal_not_editable:
  "repeatWeeks st \<Longrightarrow> 0 < k \<Longrightarrow>
     \<not> isEditable (repeatWeeks st) k \<and> modalToggleDay sh k d st = st \<and>
     modalChangePortions sh k oid p st = st"
  by (auto simp: isEditable_def modalToggleDay_def modalChangePortions_def split: option.splits)

lemma upt_3: "[0..<3] = [0, 1, 2]"
  by (simp add: upt_rec)

lemmas eval_weeks = ensureWeeks_def ensureWeekAt_def clampNumber_def num_def
  MAX_WEEKS_def MAX_PORTIONS_def menuWeekStart_def firstWeekStart_def orElse_def shiftWeekStart_def
  Let_def syncRepeatedWeeks_eq createWeekPlan_def

lemmas ex_items = exMenu_def exMonday_def exTuesday_def exShift_def

lemma pruned_idem [simp]: "pruned menu (pruned menu s) = pruned menu s"
  by (cases menu) (simp_all add: pruned_def)

lemma pruneStep_eq:
  "pruneStep menu (e0 # rest) = Inr (e0\<lparr>selections := pruned menu (selections e0)\<rparr> # rest)"
  by (cases menu) (auto simp: pruneStep_def pruned_def Let_def)

lemma repeatStep_eq:
  "repeatStep rep (f # rest) =
     Inr (if rep then f # map (\<lambda>c. c\<lparr>selections := selections f\<rparr>) rest else f # rest)"
  by (auto simp: repeatStep_def syncRepeatedWeeks_eq Let_def)

lemma menuEffect_eq:
  "menuEffect sh menu st =
     Inr (st\<lparr>weeks := map (normWeekAt sh menu st) [0..<nat (clampNumber (num (weeksCount st)) 1 MAX_WEEKS)]\<rparr>)"
proof -
  define n where "n = clampNumber (num (weeksCount st)) 1 MAX_WEEKS"
  define b where "b = orElse (menuWeekStart menu) (firstWeekStart (weeks st))"
  define E where "E = ensureWeekAt sh (weeks st) b (repeatWeeks st)"
  have pos: "0 < nat n" unfolding n_def by (rule clampWeeks_pos)
  have w0: "ensureWeeks sh (weeks st) n b (repeatWeeks st) = E 0 # map E [1..<nat n]"
    unfolding E_def using pos by (rule ensureWeeks_Cons)
  define f where "f = (E 0)\<lparr>selections := pruned menu (selections (E 0))\<rparr>"
  define W where "W = (if repeatWeeks st then f # map (\<lambda>c. c\<lparr>selections := selections f\<rparr>) (map E [1..<nat n])
                       else f # map E [1..<nat n])"
  have me: "menuEffect sh menu st = Inr (st\<lparr>weeks := W\<rparr>)"
    unfolding menuEffect_def Let_def n_def [symmetric] b_def [symmetric] w0
    by (simp add: pruneStep_eq repeatStep_eq f_def [symmetric] W_def)
  have sel0: "selections (E 0) = selections (primaryWeek (weeks st))"
    unfolding E_def by (simp add: selections_ensureWeekAt)
  have "W = map (normWeekAt sh menu st) [0..<nat n]"
  proof (rule nth_equalityI)
    show "length W = length (map (normWeekAt sh menu st) [0..<nat n])"
      using pos by (simp add: W_def)
  next
    fix k assume "k < length W"
    then have k: "k < nat n" using pos by (simp add: W_def split: if_splits)
    show "W ! k = map (normWeekAt sh menu st) [0..<nat n] ! k"
    proof (cases k)
      case 0
      then show ?thesis
        using pos by (simp add: W_def f_def normWeekAt_def b_def [symmetric] E_def [symmetric] sel0)
    next
      case (Suc j)
      then show ?thesis
        using k by (simp add: W_def f_def normWeekAt_def b_def [symmetric] E_def [symmetric] sel0)
    qed
  qed
  with me show ?thesis by (simp add: n_def)
qed

lemma weekStart_ensureWeekAt:
  "weekStart (ensureWeekAt sh w b r k) =
     (if k = 0 then orElse (shiftWeekStart sh b 0) (orElse (firstWeekStart w) b)
      else orElse (shiftWeekStart sh b k) (if k < length w then weekStart (w ! k) else None))"
  by (cases w)
     (auto simp: ensureWeekAt_def Let_def firstWeekStart_def createWeekPlan_def orElse_def
           split: option.splits)

lemma normWeekAt_fields:
  "weekStart (normWeekAt sh menu st k) =
     weekStart (ensureWeekAt sh (weeks st) (orElse (menuWeekStart menu) (firstWeekStart (weeks st))) (repeatWeeks st) k)"
  "enabled (normWeekAt sh menu st k) =
     enabled (ensureWeekAt sh (weeks st) (orElse (menuWeekStart menu) (firstWeekStart (weeks st))) (repeatWeeks st) k)"
  "selections (normWeekAt sh menu st k) =
     (if k = 0 \<or> repeatWeeks st then pruned menu (selections (primaryWeek (weeks st)))
      else if k < length (weeks st) then selections (weeks st ! k) else fmempty)"
  by (simp_all add: normWeekAt_def Let_def selections_ensureWeekAt)

lemma shiftWeekStart_None [simp]: "shiftWeekStart sh None k = None"
  by (simp add: shiftWeekStart_def)

lemma weekStart_restable:
  assumes stable: "baseDateStable sh menu st"
    and W: "W = map (normWeekAt sh menu st) [0..<N]"
    and N: "N = nat (clampNumber (num (weeksCount st)) 1 MAX_WEEKS)"
    and k: "k < N"
  shows "weekStart (ensureWeekAt sh W (orElse (menuWeekStart menu) (firstWeekStart W)) r k) =
         weekStart (W ! k)"
proof -
  define m where "m = menuWeekStart menu"
  define f where "f = firstWeekStart (weeks st)"
  define b where "b = orElse m f"
  have pos: "0 < N" using k by simp
  have lenW: "length W = N" using W by simp
  have wsW: "weekStart (W ! j) =
             (if j = 0 then orElse (shiftWeekStart sh b 0) (orElse f b)
              else orElse (shiftWeekStart sh b j) (if j < length (weeks st) then weekStart (weeks st ! j) else None))"
    if "j < N" for j
    using that W by (simp add: normWeekAt_fields weekStart_ensureWeekAt b_def m_def f_def)
  have fW: "firstWeekStart W = orElse (shiftWeekStart sh b 0) (orElse f b)"
    using wsW [of 0] pos lenW by (cases W) (auto simp: firstWeekStart_def)
  define f' where "f' = firstWeekStart W"
  define b' where "b' = orElse m f'"
  have shift_eq: "shiftWeekStart sh b' j = None \<or> shiftWeekStart sh b' j = shiftWeekStart sh b j"
    if "j < N" for j
  proof (cases m)
    case (Some x)
    then show ?thesis by (simp add: b'_def b_def orElse_def)
  next
    case None
    then have bf: "b = f" "b' = f'" by (simp_all add: b_def b'_def orElse_def)
    show ?thesis
    proof (cases "shiftWeekStart sh f 0")
      case n: None
      then have "f' = f" using fW bf by (simp add: f'_def orElse_def split: option.splits)
      then show ?thesis using bf by simp
    next
      case (Some s)
      then obtain x where x: "f = Some x" "x \<noteq> []" "sh x 0 = Some s"
        by (cases f) (auto simp: shiftWeekStart_def split: if_splits)
      from stable None x have "dateRoundTrips sh N x"
        by (simp add: baseDateStable_def m_def f_def N)
      with x have s: "s \<noteq> []" "sh s j = sh x j"
        using that by (auto simp: dateRoundTrips_def list_all_iff)
      have "f' = Some s" using fW bf Some by (simp add: f'_def orElse_def)
      then show ?thesis using bf x s by (simp add: shiftWeekStart_def)
    qed
  qed
  show ?thesis
  proof (cases k)
    case 0
    have "weekStart (ensureWeekAt sh W b' r 0) = orElse (shiftWeekStart sh b' 0) (orElse f' b')"
      by (simp add: weekStart_ensureWeekAt f'_def)
    also have "\<dots> = f'"
    proof (cases "shiftWeekStart sh b' 0")
      case None
      show ?thesis
      proof (cases f')
        case n2: None
        then have "orElse (shiftWeekStart sh b 0) (orElse f b) = None"
          using fW by (simp add: f'_def)
        then have "b = None" by (auto simp: orElse_def split: option.splits)
        then have "m = None" by (auto simp: b_def orElse_def split: option.splits)
        then show ?thesis using None n2 by (simp add: b'_def orElse_def)
      next
        case (Some a)
        then show ?thesis using None by (simp add: orElse_def)
      qed
    next
      case (Some s)
      with shift_eq [of 0] pos have "shiftWeekStart sh b 0 = Some s" by auto
      then have "f' = Some s" using fW by (simp add: f'_def orElse_def)
      then show ?thesis using Some by (simp add: orElse_def)
    qed
    also have "f' = weekStart (W ! 0)" using wsW [of 0] pos fW by (simp add: f'_def)
    finally show ?thesis using 0 by (simp add: b'_def f'_def m_def)
  next
    case (Suc j)
    have "weekStart (ensureWeekAt sh W b' r k) = orElse (shiftWeekStart sh b' k) (weekStart (W ! k))"
      using Suc k lenW by (simp add: weekStart_ensureWeekAt)
    also have "\<dots> = weekStart (W ! k)"
      using shift_eq [OF k] wsW [OF k] Suc by (auto simp: orElse_def split: option.splits)
    finally show ?thesis by (simp add: b'_def f'_def m_def)
  qed
qed

lemma normalize_idem:
  assumes stable: "baseDateStable sh menu st"
  defines "N \<equiv> nat (clampNumber (num (weeksCount st)) 1 MAX_WEEKS)"
  defines "W \<equiv> map (normWeekAt sh menu st) [0..<N]"
  shows "map (normWeekAt sh menu (st\<lparr>weeks := W\<rparr>)) [0..<N] = W"
proof (rule nth_equalityI)
  show "length (map (normWeekAt sh menu (st\<lparr>weeks := W\<rparr>)) [0..<N]) = length W"
    by (simp add: W_def)
next
  fix k assume "k < length (map (normWeekAt sh menu (st\<lparr>weeks := W\<rparr>)) [0..<N])"
  then have k: "k < N" by simp
  have pos: "0 < N" using k by simp
  have lenW: "length W = N" by (simp add: W_def)
  have Wk: "W ! j = normWeekAt sh menu st j" if "j < N" for j using that by (simp add: W_def)
  have prim: "primaryWeek W = normWeekAt sh menu st 0"
    using Wk [of 0] pos lenW by (cases W) (auto simp: primaryWeek_def)
  have ws: "weekStart (normWeekAt sh menu (st\<lparr>weeks := W\<rparr>) k) = weekStart (W ! k)"
    using weekStart_restable [OF stable _ _ k, of W "repeatWeeks st"]
    by (simp add: normWeekAt_fields W_def N_def)
  have en: "enabled (normWeekAt sh menu (st\<lparr>weeks := W\<rparr>) k) = enabled (W ! k)"
    using k lenW Wk [OF k] by (simp add: normWeekAt_fields enabled_ensureWeekAt)
  have se: "selections (normWeekAt sh menu (st\<lparr>weeks := W\<rparr>) k) = selections (W ! k)"
    using k lenW Wk [OF k] prim by (simp add: normWeekAt_fields)
  show "map (normWeekAt sh menu (st\<lparr>weeks := W\<rparr>)) [0..<N] ! k = W ! k"
    using k ws en se by simp
qed

lemma primaryWeek_sync [simp]: "primaryWeek (syncRepeatedWeeks ws b) = primaryWeek ws"
  by (cases ws) (simp_all add: syncRepeatedWeeks_eq primaryWeek_def)

lemma primaryWeek_ensureWeeks:
  "0 < nat n \<Longrightarrow> enabled (primaryWeek (ensureWeeks sh w n b r))"
  by (simp add: ensureWeeks_Cons primaryWeek_def enabled_ensureWeekAt)

lemma primaryWeek_nil [simp]: "enabled (primaryWeek [])"
  by (simp add: primaryWeek_def createWeekPlan_def)

lemma menuEffect_weeks:
  assumes "menuEffect sh menu st = Inr st'"
  shows "weeks st' = map (normWeekAt sh menu st) [0..<nat (clampNumber (num (weeksCount st)) 1 MAX_WEEKS)]"
    and "length (weeks st') = nat (clampNumber (num (weeksCount st)) 1 MAX_WEEKS)"
    and "weeks st' \<noteq> []"
    and "weeks st' ! 0 = normWeekAt sh menu st 0"
proof -
  show w: "weeks st' = map (normWeekAt sh menu st) [0..<nat (clampNumber (num (weeksCount st)) 1 MAX_WEEKS)]"
    using assms by (auto simp: menuEffect_eq)
  then show "length (weeks st') = nat (clampNumber (num (weeksCount st)) 1 MAX_WEEKS)" by simp
  with clampWeeks_pos [of "num (weeksCount st)"] show "weeks st' \<noteq> []" by auto
  show "weeks st' ! 0 = normWeekAt sh menu st 0"
    using w clampWeeks_pos [of "num (weeksCount st)"] by (simp del: clampWeeks_pos)
qed

lemma countAfter_range_aux:
  "1 \<le> c \<and> c \<le> 4 \<Longrightarrow>
     1 \<le> foldl (\<lambda>count i. clickCount i count) c clicks \<and>
     foldl (\<lambda>count i. clickCount i count) c clicks \<le> 4"
proof (induction clicks arbitrary: c)
  case Nil
  then show ?case by simp
next
  case (Cons i clicks)
  have "1 \<le> clickCount i c \<and> clickCount i c \<le> 4"
  proof (cases "i < 4")
    case True
    then have "i = 0 \<or> i = 1 \<or> i = 2 \<or> i = 3" by arith
    then show ?thesis by (auto simp: clickCount_def COUNT_OPTIONS_def)
  next
    case False
    then show ?thesis using Cons.prems by (simp add: clickCount_def COUNT_OPTIONS_def)
  qed
  from Cons.IH [OF this] show ?case by simp
qed

lemma mostRecent_mem: "mostRecent best rest \<in> set (best # rest)"
  by (induction rest arbitrary: best) auto

lemma findActive_Some:
  assumes "findActive orders c d w = Some dup"
  shows "dup \<in> set orders \<and> isActiveFor c d w dup"
proof -
  from assms obtain ord rest where f: "filter (isActiveFor c d w) orders = ord # rest"
    and d: "dup = mostRecent ord rest"
    by (auto simp: findActive_def split: list.splits)
  have "dup \<in> set (filter (isActiveFor c d w) orders)"
    unfolding f d by (rule mostRecent_mem)
  then show ?thesis by simp
qed

lemma findActive_None_iff:
  "findActive orders c d w = None \<longleftrightarrow> (\<forall>ord \<in> set orders. \<not> isActiveFor c d w ord)"
proof (cases "filter (isActiveFor c d w) orders")
  case Nil
  then show ?thesis by (simp add: findActive_def filter_empty_conv)
next
  case (Cons ord rest)
  then have "ord \<in> set (filter (isActiveFor c d w) orders)" by simp
  then have "\<exists>ord \<in> set orders. isActiveFor c d w ord" by auto
  with Cons show ?thesis by (simp add: findActive_def)
qed

lemma selections_first_ensured:
  assumes "ensureWeeks sh w n b r = current # rest"
  shows "selections current = selections (primaryWeek w)"
  using ensureWeeks_hd(1) [OF assms] by (simp add: selections_ensureWeekAt)

lemma handleChangePortions_result:
  "handleChangePortions sh menu oid p st =
     (case fmlookup (selections (primaryWeek (weeks st))) oid of
        None \<Rightarrow> st
      | Some sel \<Rightarrow>
          if portions sel = min (max p 1) MAX_PORTIONS then st
          else handleChangePortions sh menu oid p st) \<and>
   (\<forall>sel. fmlookup (selections (primaryWeek (weeks st))) oid = Some sel \<longrightarrow>
      fmlookup (selections (primaryWeek (weeks (handleChangePortions sh menu oid p st)))) oid =
        Some (sel\<lparr>portions := min (max p 1) MAX_PORTIONS\<rparr>))"
proof -
  obtain current rest where w0:
    "ensureWeeks sh (weeks st) (clampNumber (num (weeksCount st)) 1 MAX_WEEKS)
       (orElse (menuWeekStart menu) (firstWeekStart (weeks st))) (repeatWeeks st) = current # rest"
    using ensureWeeks_clamp_ne [of sh "weeks st" "num (weeksCount st)"] by (meson list.exhaust)
  note s = selections_first_ensured [OF w0]
  show ?thesis
  proof (cases "fmlookup (selections (primaryWeek (weeks st))) oid")
    case None
    then show ?thesis using w0 s by (simp add: handleChangePortions_def Let_def)
  next
    case (Some sel)
    show ?thesis
    proof (cases "portions sel = min (max p 1) MAX_PORTIONS")
      case True
      then have "handleChangePortions sh menu oid p st = st"
        using Some w0 s by (simp add: handleChangePortions_def Let_def)
      moreover have "sel\<lparr>portions := min (max p 1) MAX_PORTIONS\<rparr> = sel" using True by simp
      ultimately show ?thesis using Some by simp
    next
      case False
      then show ?thesis
        using Some w0 s
        by (simp add: handleChangePortions_def Let_def primaryWeek_def syncRepeatedWeeks_eq)
    qed
  qed
qed

lemma floor_half: "\<lfloor>(1::rat) / 2\<rfloor> = 0"
  by (rule floor_unique) simp_all

lemma t: "loadInitialState sh coerce (Parsed exStored) =
   Loaded \<lparr>r_weeks = [\<lparr>weekStart = None,
                       selections = fmupd ''mon'' \<lparr>offerId = ''mon'', day = ''Mon'', portions = 0\<rparr> fmempty,
                       enabled = True\<rparr>],
          r_weeksCount = Some 1, r_repeatWeeks = JBool True, r_address = JStr [], r_promoCode = JStr []\<rparr>"
  by (simp add: loadInitialState_def exStored_def restoreWeek_def optProp_def normalizeSelections_def
       isObject_def objectEntries_def toNumber_def restoredPortions_def clampNumberUntyped_def
       coalesce_def truthy_def ensureWeeksNaN_def ensureWeeks_def ensureWeekAt_def clampNumber_def
       MAX_WEEKS_def MAX_PORTIONS_def firstWeekStart_def orElse_def shiftWeekStart_def Let_def
       createWeekPlan_def enumerate_eq_zip floor_half)

lemma primaryWeek_Cons [simp]: "primaryWeek (w # ws) = w"
  by (simp add: primaryWeek_def)

lemma primaryWeek_ensureWeeks_clamp [simp]:
  "enabled (primaryWeek (ensureWeeks sh w (clampNumber v 1 MAX_WEEKS) b r))"
  by (rule primaryWeek_ensureWeeks) (rule clampWeeks_pos)



lemma enabled_createWeekPlan [simp]: "enabled (createWeekPlan ws en s) = en"
  by (simp add: createWeekPlan_def)








lemma restore_text_weeksCount:
  assumes "coerce (JStr ''abc'') = NaN"
  shows "loadInitialState sh coerce (Parsed (JObj [(''weeksCount'', JStr ''abc'')])) =
     Loaded \<lparr>r_weeks = [], r_weeksCount = None, r_repeatWeeks = JBool True,
             r_address = JStr [], r_promoCode = JStr []\<rparr>"
  using assms
  by (simp add: loadInitialState_def normalizeSelections_def toNumber_def clampNumberUntyped_def
       coalesce_def truthy_def ensureWeeksNaN_def Let_def)

lemma restoredPortions_range: "0 \<le> restoredPortions x \<and> restoredPortions x \<le> 8"
  by (cases x) (auto simp: restoredPortions_def MAX_PORTIONS_def)

lemma clampNumberUntyped_range:
  "clampNumberUntyped coerce v 1 MAX_WEEKS = Some n \<Longrightarrow> 1 \<le> n \<and> n \<le> 8"
  using clampWeeks_le
  by (auto simp: clampNumberUntyped_def split: json.splits jsnum.splits)

lemma ensureWeeks_synced: "rep \<Longrightarrow> repeatSynced (ensureWeeks sh w n b rep)"
  unfolding repeatSynced_iff by (auto simp: selections_ensureWeekAt)

lemma repeatSynced_single [simp]: "repeatSynced [w]" "repeatSynced []"
  by (simp_all add: repeatSynced_def)

lemma ensureWeeksNaN_synced: "rep \<Longrightarrow> repeatSynced (ensureWeeksNaN sh w c b rep)"
  by (cases c) (simp_all add: ensureWeeksNaN_def ensureWeeks_synced)

lemma load_repeat_synced:
  "loadInitialState sh coerce item = Loaded r \<Longrightarrow> truthy (r_repeatWeeks r) \<Longrightarrow>
     repeatSynced (r_weeks r)"
  unfolding loadInitialState_def Let_def
  by (auto simp: ensureWeeksNaN_synced restoredOf_def DEFAULT_STATE_def
      split: stored.splits json.splits option.splits)

lemma fmdom_empty_iff: "fmdom s = {||} \<longleftrightarrow> s = fmempty"
proof
  assume "fmdom s = {||}"
  then have "fmlookup s x = None" for x by (simp add: fmdom_notD)
  then show "s = fmempty" by (intro fmap_ext) simp
qed simp

lemma repeat_edit_result:
  assumes w0: "ensureWeeks sh (weeks st) n b r = current # rest"
    and res: "st' = st\<lparr>weeks := syncRepeatedWeeks (x # rest) s\<rparr>"
    and x: "selections x = s"
  shows "length (weeks st') = nat n \<and> (\<forall>k<nat n. selections (weeks st' ! k) = s)"
proof (intro conjI allI impI)
  note hd = ensureWeeks_hd [OF w0]
  show "length (weeks st') = nat n" using hd(2) res by simp
  fix k assume "k < nat n"
  then show "selections (weeks st' ! k) = s"
    using hd(2) res x by (cases k) (auto simp: nth_sync)
qed

lemma first_ensured:
  assumes "ensureWeeks sh (weeks st) n b r = current # rest"
  shows "selections current = selections (primaryWeek (weeks st))"
  using ensureWeeks_hd(1) [OF assms] by (simp add: selections_ensureWeekAt)

lemma ensured_clamp_obtain:
  obtains current rest where
    "ensureWeeks sh (weeks st) (clampNumber (num (weeksCount st)) 1 MAX_WEEKS) b r = current # rest"
  using ensureWeeks_clamp_ne [of sh "weeks st" "num (weeksCount st)" b r] by (meson list.exhaust)

lemma handleToggleDay_repeat:
  assumes "repeatWeeks st" "md_offerId d = Some oid" "oid \<noteq> []" "md_status d = Available"
  shows "length (weeks (handleToggleDay sh menu d st)) =
           nat (clampNumber (num (weeksCount st)) 1 MAX_WEEKS) \<and>
         (\<forall>k<nat (clampNumber (num (weeksCount st)) 1 MAX_WEEKS).
            selections (weeks (handleToggleDay sh menu d st) ! k) =
              (if oid |\<in>| fmdom (selections (primaryWeek (weeks st)))
               then fmdrop oid (selections (primaryWeek (weeks st)))
               else fmupd oid \<lparr>offerId = oid, day = md_day d, portions = 1\<rparr>
                      (selections (primaryWeek (weeks st)))))"
proof -
  obtain current rest where w0:
    "ensureWeeks sh (weeks st) (clampNumber (num (weeksCount st)) 1 MAX_WEEKS)
       (orElse (menuWeekStart menu) (firstWeekStart (weeks st))) True = current # rest"
    by (rule ensured_clamp_obtain)
  note s = first_ensured [OF w0]
  show ?thesis
    by (rule repeat_edit_result [OF w0, where x = "current\<lparr>selections :=
              (if oid |\<in>| fmdom (selections (primaryWeek (weeks st)))
               then fmdrop oid (selections (primaryWeek (weeks st)))
               else fmupd oid \<lparr>offerId = oid, day = md_day d, portions = 1\<rparr>
                      (selections (primaryWeek (weeks st))))\<rparr>"])
       (use assms in \<open>simp_all add: handleToggleDay_def Let_def w0 s\<close>)
qed

lemma handleChangePortions_repeat:
  assumes "repeatWeeks st" "fmlookup (selections (primaryWeek (weeks st))) oid = Some sel"
    "portions sel \<noteq> min (max p 1) MAX_PORTIONS"
  shows "length (weeks (handleChangePortions sh menu oid p st)) =
           nat (clampNumber (num (weeksCount st)) 1 MAX_WEEKS) \<and>
         (\<forall>k<nat (clampNumber (num (weeksCount st)) 1 MAX_WEEKS).
            selections (weeks (handleChangePortions sh menu oid p st) ! k) =
              fmupd oid (sel\<lparr>portions := min (max p 1) MAX_PORTIONS\<rparr>)
                (selections (primaryWeek (weeks st))))"
proof -
  obtain current rest where w0:
    "ensureWeeks sh (weeks st) (clampNumber (num (weeksCount st)) 1 MAX_WEEKS)
       (orElse (menuWeekStart menu) (firstWeekStart (weeks st))) True = current # rest"
    by (rule ensured_clamp_obtain)
  note s = first_ensured [OF w0]
  show ?thesis
    by (rule repeat_edit_result [OF w0, where x = "current\<lparr>selections :=
              fmupd oid (sel\<lparr>portions := min (max p 1) MAX_PORTIONS\<rparr>)
                (selections (primaryWeek (weeks st)))\<rparr>"])
       (use assms in \<open>simp_all add: handleChangePortions_def Let_def w0 s\<close>)
qed

lemma handleApplyPreset_repeat:
  assumes "repeatWeeks st"
  shows "length (weeks (handleApplyPreset sh (Some m) preset st)) =
           nat (clampNumber (num (weeksCount st)) 1 MAX_WEEKS) \<and>
         (\<forall>k<nat (clampNumber (num (weeksCount st)) 1 MAX_WEEKS).
            selections (weeks (handleApplyPreset sh (Some m) preset st) ! k) =
              presetLoop (menu_items m) (preset_portions preset) (preset_days preset) fmempty)"
proof -
  obtain current rest where w0:
    "ensureWeeks sh (weeks st) (clampNumber (num (weeksCount st)) 1 MAX_WEEKS)
       (orElse (menu_weekStart m) (firstWeekStart (weeks st))) True = current # rest"
    by (rule ensured_clamp_obtain)
  show ?thesis
    by (rule repeat_edit_result [OF w0, where x = "current\<lparr>selections :=
              presetLoop (menu_items m) (preset_portions preset) (preset_days preset) fmempty\<rparr>"])
       (use assms in \<open>simp_all add: handleApplyPreset_def Let_def w0\<close>)
qed

lemma initialDayEffect_repeat:
  assumes "repeatWeeks st" "name \<noteq> []" "findAvailable (menu_items m) name = Some (dd, oid)"
    "oid |\<notin>| fmdom (selections (primaryWeek (weeks st)))"
  shows "length (weeks (initialDayEffect sh (Some m) (Some name) st)) =
           nat (clampNumber (num (weeksCount st)) 1 MAX_WEEKS) \<and>
         (\<forall>k<nat (clampNumber (num (weeksCount st)) 1 MAX_WEEKS).
            selections (weeks (initialDayEffect sh (Some m) (Some name) st) ! k) =
              fmupd oid \<lparr>offerId = oid, day = md_day dd, portions = 1\<rparr>
                (selections (primaryWeek (weeks st))))"
proof -
  obtain current rest where w0:
    "ensureWeeks sh (weeks st) (clampNumber (num (weeksCount st)) 1 MAX_WEEKS)
       (orElse (menu_weekStart m) (firstWeekStart (weeks st))) True = current # rest"
    by (rule ensured_clamp_obtain)
  note s = first_ensured [OF w0]
  show ?thesis
    by (rule repeat_edit_result [OF w0, where x = "current\<lparr>selections :=
              fmupd oid \<lparr>offerId = oid, day = md_day dd, portions = 1\<rparr>
                (selections (primaryWeek (weeks st)))\<rparr>"])
       (use assms in \<open>simp_all add: initialDayEffect_def Let_def w0 s\<close>)
qed

lemma cleared_repeat:
  assumes ws: "weeks st = w0 # rest"
    and res: "st' = st\<lparr>weeks := syncRepeatedWeeks
                 (w0\<lparr>selections := s\<rparr> # map (\<lambda>week. week\<lparr>selections := fmempty\<rparr>) rest) s\<rparr>"
  shows "length (weeks st') = length (weeks st) \<and>
         (\<forall>k<length (weeks st). selections (weeks st' ! k) = s)"
proof (intro conjI allI impI)
  show "length (weeks st') = length (weeks st)" using ws res by simp
  fix k assume "k < length (weeks st)"
  then show "selections (weeks st' ! k) = s"
    using ws res by (cases k) (auto simp: nth_sync)
qed

lemma handleClearSelection_repeat:
  assumes "repeatWeeks st" "oid |\<in>| fmdom (selections (primaryWeek (weeks st)))"
  shows "length (weeks (handleClearSelection oid st)) = length (weeks st) \<and>
         (\<forall>k<length (weeks st).
            selections (weeks (handleClearSelection oid st) ! k) =
              fmdrop oid (selections (primaryWeek (weeks st))))"
proof (cases "weeks st")
  case Nil
  with assms(2) show ?thesis by (simp add: primaryWeek_def createWeekPlan_def)
next
  case (Cons w0 rest)
  show ?thesis
    by (rule cleared_repeat [OF Cons])
       (use assms Cons in \<open>simp add: handleClearSelection_def Let_def\<close>)
qed

lemma handleClearAll_repeat:
  assumes "repeatWeeks st" "selections (primaryWeek (weeks st)) \<noteq> fmempty"
  shows "length (weeks (handleClearAll st)) = length (weeks st) \<and>
         (\<forall>k<length (weeks st). selections (weeks (handleClearAll st) ! k) = fmempty)"
proof (cases "weeks st")
  case Nil
  with assms(2) show ?thesis by (simp add: primaryWeek_def createWeekPlan_def)
next
  case (Cons w0 rest)
  show ?thesis
    by (rule cleared_repeat [OF Cons])
       (use assms Cons in \<open>simp add: handleClearAll_def Let_def fmdom_empty_iff\<close>)
qed

lemma updateWeekPlan_first_repeat:
  assumes "repeatWeeks st"
    and u: "\<And>w. selections w = selections (primaryWeek (weeks st)) \<Longrightarrow> selections (u w) = s"
  shows "length (weeks (updateWeekPlan sh 0 u st)) =
           nat (clampNumber (num (weeksCount st)) 1 MAX_WEEKS) \<and>
         (\<forall>k<nat (clampNumber (num (weeksCount st)) 1 MAX_WEEKS).
            selections (weeks (updateWeekPlan sh 0 u st) ! k) = s)"
proof -
  obtain current rest where w0:
    "ensureWeeks sh (weeks st) (clampNumber (num (weeksCount st)) 1 MAX_WEEKS)
       (firstWeekStart (weeks st)) True = current # rest"
    by (rule ensured_clamp_obtain)
  note s = first_ensured [OF w0]
  show ?thesis
    by (rule repeat_edit_result [OF w0, where x = "(u current)\<lparr>enabled := True\<rparr>"])
       (use assms u [OF s] in \<open>simp_all add: updateWeekPlan_eq Let_def w0\<close>)
qed

lemma modalToggleDay_repeat:
  assumes "repeatWeeks st" "md_offerId d = Some oid" "oid \<noteq> []"
    "activeWeek (weeks st) (weeksCount st) 0 \<noteq> None"
  shows "length (weeks (modalToggleDay sh 0 d st)) =
           nat (clampNumber (num (weeksCount st)) 1 MAX_WEEKS) \<and>
         (\<forall>k<nat (clampNumber (num (weeksCount st)) 1 MAX_WEEKS).
            selections (weeks (modalToggleDay sh 0 d st) ! k) =
              (if oid |\<in>| fmdom (selections (primaryWeek (weeks st)))
               then fmdrop oid (selections (primaryWeek (weeks st)))
               else fmupd oid \<lparr>offerId = oid, day = md_day d, portions = 1\<rparr>
                      (selections (primaryWeek (weeks st)))))"
proof -
  have eq: "modalToggleDay sh 0 d st = updateWeekPlan sh 0 (toggleUpdater oid (md_day d)) st"
    using assms by (auto simp: modalToggleDay_def isEditable_def)
  show ?thesis
    unfolding eq
    by (rule updateWeekPlan_first_repeat [OF assms(1)]) (simp add: toggleUpdater_def)
qed

lemma modalChangePortions_repeat:
  assumes "repeatWeeks st" "activeWeek (weeks st) (weeksCount st) 0 \<noteq> None"
    "fmlookup (selections (primaryWeek (weeks st))) oid = Some sel"
  shows "length (weeks (modalChangePortions sh 0 oid p st)) =
           nat (clampNumber (num (weeksCount st)) 1 MAX_WEEKS) \<and>
         (\<forall>k<nat (clampNumber (num (weeksCount st)) 1 MAX_WEEKS).
            selections (weeks (modalChangePortions sh 0 oid p st) ! k) =
              fmupd oid (sel\<lparr>portions := min (max p 1) MAX_PORTIONS\<rparr>)
                (selections (primaryWeek (weeks st))))"
proof -
  have eq: "modalChangePortions sh 0 oid p st = updateWeekPlan sh 0 (portionsUpdater oid p) st"
    using assms by (auto simp: modalChangePortions_def isEditable_def)
  show ?thesis
    unfolding eq
    by (rule updateWeekPlan_first_repeat [OF assms(1)])
       (use assms(3) in \<open>simp add: portionsUpdater_def Let_def\<close>)
qed


lemma sync_first_synced: "repeatSynced (syncRepeatedWeeks (w0 # rest) (selections w0))"
  by (simp add: syncRepeatedWeeks_eq repeatSynced_def list_all_iff)

lemma repeatWeeks_updateWeekPlan [simp]:
  "repeatWeeks (updateWeekPlan sh i u st) = repeatWeeks st"
  by (simp add: updateWeekPlan_eq Let_def)

lemma inv_menuEffect:
  assumes "menuEffect sh menu st = Inr st'" and "repeatWeeks st'"
  shows "repeatSynced (weeks st')"
proof -
  have r: "repeatWeeks st" using assms by (auto simp: menuEffect_eq)
  show ?thesis
    unfolding repeatSynced_iff menuEffect_weeks(1) [OF assms(1)]
    using r by (auto simp: normWeekAt_fields)
qed

lemma inv_weeksCount:
  assumes "repeatWeeks st \<longrightarrow> repeatSynced (weeks st)"
    and "repeatWeeks (handleWeeksCountChange sh v st)"
  shows "repeatSynced (weeks (handleWeeksCountChange sh v st))"
  using assms by (auto simp: handleWeeksCountChange_def Let_def ensureWeeks_synced split: if_splits)

lemma inv_repeatToggle:
  assumes "repeatWeeks st \<longrightarrow> repeatSynced (weeks st)"
    and "handleRepeatToggle sh v st = Inr st'" and "repeatWeeks st'"
  shows "repeatSynced (weeks st')"
  using assms
  by (auto simp: handleRepeatToggle_def Let_def sync_first_synced split: if_splits list.splits)

lemma inv_updateWeek:
  assumes "repeatWeeks st \<longrightarrow> repeatSynced (weeks st)"
    and "isEditable (repeatWeeks st) i" and "repeatWeeks st"
  shows "repeatSynced (weeks (updateWeekPlan sh i u st))"
proof -
  from assms have i: "i = 0" by (simp add: isEditable_def)
  show ?thesis
    using updateWeekPlan_first_props [of sh u st] assms
    by (auto simp: i editProps_def)
qed

lemma inv_toggleEnabled:
  assumes "repeatWeeks st \<longrightarrow> repeatSynced (weeks st)" and "repeatWeeks st"
  shows "repeatSynced (weeks (handleToggleWeekEnabled sh i en st))"
proof (cases "i = 0")
  case True
  then show ?thesis using assms by (simp add: handleToggleWeekEnabled_def)
next
  case False
  define w0 where "w0 = ensureWeeks sh (weeks st) (clampNumber (num (weeksCount st)) 1 MAX_WEEKS)
                     (firstWeekStart (weeks st)) True"
  have s: "repeatSynced w0" unfolding w0_def by (rule ensureWeeks_synced) simp
  show ?thesis
  proof (cases "i < length w0")
    case f: False
    then show ?thesis
      using False assms
      by (simp add: handleToggleWeekEnabled_def updateWeekPlan_eq Let_def w0_def [symmetric])
  next
    case t: True
    have eq: "weeks (handleToggleWeekEnabled sh i en st) = w0[i := (w0 ! i)\<lparr>enabled := en\<rparr>]"
      using False assms t
      by (simp add: handleToggleWeekEnabled_def updateWeekPlan_eq Let_def w0_def [symmetric])
    show ?thesis
      unfolding eq using s False t
      by (auto simp: repeatSynced_iff nth_list_update)
  qed
qed

lemma inv_applyEdit:
  assumes "repeatWeeks st \<longrightarrow> repeatSynced (weeks st)"
    and "repeatWeeks (applyEdit sh menu e st)"
  shows "repeatSynced (weeks (applyEdit sh menu e st))"
  using applyEdit_props [of sh menu e st] assms by (auto simp: editProps_def)

lemma inv_applyOp:
  assumes inv: "repeatWeeks st \<longrightarrow> repeatSynced (weeks st)"
    and op: "applyOp sh menu op st = Inr st'"
    and ed: "\<forall>i u. op = UpdateWeek i u \<longrightarrow> isEditable (repeatWeeks st) i"
    and r: "repeatWeeks st'"
  shows "repeatSynced (weeks st')"
proof (cases op)
  case Normalize
  with op r show ?thesis by (auto intro: inv_menuEffect)
next
  case (WeeksCountChange v)
  with op r inv show ?thesis by (auto intro: inv_weeksCount)
next
  case (RepeatToggle v)
  with op r inv show ?thesis by (auto intro: inv_repeatToggle)
next
  case (UpdateWeek i u)
  with op r inv ed show ?thesis by (auto intro: inv_updateWeek)
next
  case (ToggleWeekEnabled i en)
  with op r have "repeatWeeks st" by (auto simp: handleToggleWeekEnabled_def split: if_splits)
  with ToggleWeekEnabled op inv show ?thesis by (auto intro: inv_toggleEnabled)
next
  case (WeekSelect ws)
  with op r show ?thesis by (auto simp: handleWeekSelect_def ensureWeeks_synced)
next
  case (Edit e)
  with op r inv show ?thesis by (auto intro: inv_applyEdit)
qed

section \<open>The claims\<close>

text \<open>
  Claim C1. In repeat mode every edit of the first week's selections that takes effect
  (toggling a day, changing portions, applying a preset, clearing one offer or all, the
  preselected day, and the dialog's toggle and portions at the first week) leaves a week
  list in which every week holds the edited selections of the first week, whatever the
  later weeks held before; the later weeks keep their own enabled flags. An edit that
  changes nothing returns the state as it is, so the later weeks repeat the first
  afterwards whenever they did before, and they do in every state of the page: the
  restored state has them so, and every state update keeps them so (\<open>updateWeekPlan\<close>
  with an updater of its caller's choice where \<open>isEditable\<close> holds, which is how the
  dialog calls it). An edit aimed at a later week from the dialog is ignored, and
  \<open>isEditable\<close> says so.
\<close>

theorem repeat_on_edits_propagate:
  assumes "repeatWeeks st"
  shows
  "(applyEdit sh menu e st \<noteq> st \<or> repeatSynced (weeks st) \<longrightarrow>
      (\<forall>k. 0 < k \<and> k < length (weeks (applyEdit sh menu e st)) \<longrightarrow>
           selections (weeks (applyEdit sh menu e st) ! k) =
           selections (weeks (applyEdit sh menu e st) ! 0))) \<and>
   (\<forall>k. 0 < k \<and> k < length (weeks st) \<and> k < length (weeks (applyEdit sh menu e st)) \<longrightarrow>
        enabled (weeks (applyEdit sh menu e st) ! k) = enabled (weeks st ! k)) \<and>
   (\<forall>x. md_offerId d = Some x \<and> x \<noteq> [] \<and> md_status d = Available \<longrightarrow>
        length (weeks (applyEdit sh menu (ToggleDay d) st)) =
          nat (clampNumber (num (weeksCount st)) 1 MAX_WEEKS) \<and>
        (\<forall>k<nat (clampNumber (num (weeksCount st)) 1 MAX_WEEKS).
           selections (weeks (applyEdit sh menu (ToggleDay d) st) ! k) =
             (if x |\<in>| fmdom (selections (primaryWeek (weeks st)))
              then fmdrop x (selections (primaryWeek (weeks st)))
              else fmupd x \<lparr>offerId = x, day = md_day d, portions = 1\<rparr>
                     (selections (primaryWeek (weeks st)))))) \<and>
   (\<forall>sel. fmlookup (selections (primaryWeek (weeks st))) oid = Some sel \<and>
          portions sel \<noteq> min (max p 1) MAX_PORTIONS \<longrightarrow>
        length (weeks (applyEdit sh menu (ChangePortions oid p) st)) =
          nat (clampNumber (num (weeksCount st)) 1 MAX_WEEKS) \<and>
        (\<forall>k<nat (clampNumber (num (weeksCount st)) 1 MAX_WEEKS).
           selections (weeks (applyEdit sh menu (ChangePortions oid p) st) ! k) =
             fmupd oid (sel\<lparr>portions := min (max p 1) MAX_PORTIONS\<rparr>)
               (selections (primaryWeek (weeks st))))) \<and>
   (length (weeks (applyEdit sh (Some m) (ApplyPreset preset) st)) =
      nat (clampNumber (num (weeksCount st)) 1 MAX_WEEKS) \<and>
    (\<forall>k<nat (clampNumber (num (weeksCount st)) 1 MAX_WEEKS).
       selections (weeks (applyEdit sh (Some m) (ApplyPreset preset) st) ! k) =
         presetLoop (menu_items m) (preset_portions preset) (preset_days preset) fmempty)) \<and>
   (oid |\<in>| fmdom (selections (primaryWeek (weeks st))) \<longrightarrow>
      length (weeks (applyEdit sh menu (ClearSelection oid) st)) = length (weeks st) \<and>
      (\<forall>k<length (weeks st).
         selections (weeks (applyEdit sh menu (ClearSelection oid) st) ! k) =
           fmdrop oid (selections (primaryWeek (weeks st))))) \<and>
   (selections (primaryWeek (weeks st)) \<noteq> fmempty \<longrightarrow>
      length (weeks (applyEdit sh menu ClearAll st)) = length (weeks st) \<and>
      (\<forall>k<length (weeks st). selections (weeks (applyEdit sh menu ClearAll st) ! k) = fmempty)) \<and>
   (\<forall>dd x. name \<noteq> [] \<and> findAvailable (menu_items m) name = Some (dd, x) \<and>
           x |\<notin>| fmdom (selections (primaryWeek (weeks st))) \<longrightarrow>
        length (weeks (applyEdit sh (Some m) (InitialDay name) st)) =
          nat (clampNumber (num (weeksCount st)) 1 MAX_WEEKS) \<and>
        (\<forall>k<nat (clampNumber (num (weeksCount st)) 1 MAX_WEEKS).
           selections (weeks (applyEdit sh (Some m) (InitialDay name) st) ! k) =
             fmupd x \<lparr>offerId = x, day = md_day dd, portions = 1\<rparr>
               (selections (primaryWeek (weeks st))))) \<and>
   (\<forall>x. md_offerId d = Some x \<and> x \<noteq> [] \<and> activeWeek (weeks st) (weeksCount st) 0 \<noteq> None \<longrightarrow>
        length (weeks (applyEdit sh menu (ModalToggleDay d) st)) =
          nat (clampNumber (num (weeksCount st)) 1 MAX_WEEKS) \<and>
        (\<forall>k<nat (clampNumber (num (weeksCount st)) 1 MAX_WEEKS).
           selections (weeks (applyEdit sh menu (ModalToggleDay d) st) ! k) =
             (if x |\<in>| fmdom (selections (primaryWeek (weeks st)))
              then fmdrop x (selections (primaryWeek (weeks st)))
              else fmupd x \<lparr>offerId = x, day = md_day d, portions = 1\<rparr>
                     (selections (primaryWeek (weeks st)))))) \<and>
   (\<forall>sel. activeWeek (weeks st) (weeksCount st) 0 \<noteq> None \<and>
          fmlookup (selections (primaryWeek (weeks st))) oid = Some sel \<longrightarrow>
        length (weeks (applyEdit sh menu (ModalChangePortions oid p) st)) =
          nat (clampNumber (num (weeksCount st)) 1 MAX_WEEKS) \<and>
        (\<forall>k<nat (clampNumber (num (weeksCount st)) 1 MAX_WEEKS).
           selections (weeks (applyEdit sh menu (ModalChangePortions oid p) st) ! k) =
             fmupd oid (sel\<lparr>portions := min (max p 1) MAX_PORTIONS\<rparr>)
               (selections (primaryWeek (weeks st))))) \<and>
   (\<forall>k dd x q. 0 < k \<longrightarrow>
        \<not> isEditable (repeatWeeks st) k \<and> modalToggleDay sh k dd st = st \<and>
        modalChangePortions sh k x q st = st) \<and>
   (\<forall>r. loadInitialState sh coerce item = Loaded r \<and> truthy (r_repeatWeeks r) \<longrightarrow>
        repeatSynced (r_weeks r)) \<and>
   (\<forall>s s'. (repeatWeeks s \<longrightarrow> repeatSynced (weeks s)) \<and> applyOp sh menu op s = Inr s' \<and>
           (\<forall>i u. op = UpdateWeek i u \<longrightarrow> isEditable (repeatWeeks s) i) \<longrightarrow>
        (repeatWeeks s' \<longrightarrow> repeatSynced (weeks s')))"
proof (intro conjI)
  show "applyEdit sh menu e st \<noteq> st \<or> repeatSynced (weeks st) \<longrightarrow>
      (\<forall>k. 0 < k \<and> k < length (weeks (applyEdit sh menu e st)) \<longrightarrow>
           selections (weeks (applyEdit sh menu e st) ! k) =
           selections (weeks (applyEdit sh menu e st) ! 0))"
    using applyEdit_props [of sh menu e st] assms
    by (auto simp: editProps_def repeatSynced_iff)
  show "\<forall>k. 0 < k \<and> k < length (weeks st) \<and> k < length (weeks (applyEdit sh menu e st)) \<longrightarrow>
        enabled (weeks (applyEdit sh menu e st) ! k) = enabled (weeks st ! k)"
    using applyEdit_props [of sh menu e st] by (auto simp: editProps_def)
  show "\<forall>x. md_offerId d = Some x \<and> x \<noteq> [] \<and> md_status d = Available \<longrightarrow>
        length (weeks (applyEdit sh menu (ToggleDay d) st)) =
          nat (clampNumber (num (weeksCount st)) 1 MAX_WEEKS) \<and>
        (\<forall>k<nat (clampNumber (num (weeksCount st)) 1 MAX_WEEKS).
           selections (weeks (applyEdit sh menu (ToggleDay d) st) ! k) =
             (if x |\<in>| fmdom (selections (primaryWeek (weeks st)))
              then fmdrop x (selections (primaryWeek (weeks st)))
              else fmupd x \<lparr>offerId = x, day = md_day d, portions = 1\<rparr>
                     (selections (primaryWeek (weeks st)))))"
    unfolding applyEdit.simps using handleToggleDay_repeat [OF assms, of d _ sh menu] by blast
  show "\<forall>sel. fmlookup (selections (primaryWeek (weeks st))) oid = Some sel \<and>
          portions sel \<noteq> min (max p 1) MAX_PORTIONS \<longrightarrow>
        length (weeks (applyEdit sh menu (ChangePortions oid p) st)) =
          nat (clampNumber (num (weeksCount st)) 1 MAX_WEEKS) \<and>
        (\<forall>k<nat (clampNumber (num (weeksCount st)) 1 MAX_WEEKS).
           selections (weeks (applyEdit sh menu (ChangePortions oid p) st) ! k) =
             fmupd oid (sel\<lparr>portions := min (max p 1) MAX_PORTIONS\<rparr>)
               (selections (primaryWeek (weeks st))))"
    unfolding applyEdit.simps using handleChangePortions_repeat [OF assms, of oid _ p sh menu] by blast
  show "length (weeks (applyEdit sh (Some m) (ApplyPreset preset) st)) =
      nat (clampNumber (num (weeksCount st)) 1 MAX_WEEKS)"
    unfolding applyEdit.simps using handleApplyPreset_repeat [OF assms, of sh m preset] by blast
  show "\<forall>k<nat (clampNumber (num (weeksCount st)) 1 MAX_WEEKS).
       selections (weeks (applyEdit sh (Some m) (ApplyPreset preset) st) ! k) =
         presetLoop (menu_items m) (preset_portions preset) (preset_days preset) fmempty"
    unfolding applyEdit.simps using handleApplyPreset_repeat [OF assms, of sh m preset] by blast
  show "oid |\<in>| fmdom (selections (primaryWeek (weeks st))) \<longrightarrow>
      length (weeks (applyEdit sh menu (ClearSelection oid) st)) = length (weeks st) \<and>
      (\<forall>k<length (weeks st).
         selections (weeks (applyEdit sh menu (ClearSelection oid) st) ! k) =
           fmdrop oid (selections (primaryWeek (weeks st))))"
    unfolding applyEdit.simps using handleClearSelection_repeat [OF assms, of oid] by blast
  show "selections (primaryWeek (weeks st)) \<noteq> fmempty \<longrightarrow>
      length (weeks (applyEdit sh menu ClearAll st)) = length (weeks st) \<and>
      (\<forall>k<length (weeks st). selections (weeks (applyEdit sh menu ClearAll st) ! k) = fmempty)"
    unfolding applyEdit.simps using handleClearAll_repeat [OF assms] by blast
  show "\<forall>dd x. name \<noteq> [] \<and> findAvailable (menu_items m) name = Some (dd, x) \<and>
           x |\<notin>| fmdom (selections (primaryWeek (weeks st))) \<longrightarrow>
        length (weeks (applyEdit sh (Some m) (InitialDay name) st)) =
          nat (clampNumber (num (weeksCount st)) 1 MAX_WEEKS) \<and>
        (\<forall>k<nat (clampNumber (num (weeksCount st)) 1 MAX_WEEKS).
           selections (weeks (applyEdit sh (Some m) (InitialDay name) st) ! k) =
             fmupd x \<lparr>offerId = x, day = md_day dd, portions = 1\<rparr>
               (selections (primaryWeek (weeks st))))"
    unfolding applyEdit.simps using initialDayEffect_repeat [OF assms, of name m _ _ sh] by blast
  show "\<forall>x. md_offerId d = Some x \<and> x \<noteq> [] \<and> activeWeek (weeks st) (weeksCount st) 0 \<noteq> None \<longrightarrow>
        length (weeks (applyEdit sh menu (ModalToggleDay d) st)) =
          nat (clampNumber (num (weeksCount st)) 1 MAX_WEEKS) \<and>
        (\<forall>k<nat (clampNumber (num (weeksCount st)) 1 MAX_WEEKS).
           selections (weeks (applyEdit sh menu (ModalToggleDay d) st) ! k) =
             (if x |\<in>| fmdom (selections (primaryWeek (weeks st)))
              then fmdrop x (selections (primaryWeek (weeks st)))
              else fmupd x \<lparr>offerId = x, day = md_day d, portions = 1\<rparr>
                     (selections (primaryWeek (weeks st)))))"
    unfolding applyEdit.simps using modalToggleDay_repeat [OF assms, of d _ sh] by blast
  show "\<forall>sel. activeWeek (weeks st) (weeksCount st) 0 \<noteq> None \<and>
          fmlookup (selections (primaryWeek (weeks st))) oid = Some sel \<longrightarrow>
        length (weeks (applyEdit sh menu (ModalChangePortions oid p) st)) =
          nat (clampNumber (num (weeksCount st)) 1 MAX_WEEKS) \<and>
        (\<forall>k<nat (clampNumber (num (weeksCount st)) 1 MAX_WEEKS).
           selections (weeks (applyEdit sh menu (ModalChangePortions oid p) st) ! k) =
             fmupd oid (sel\<lparr>portions := min (max p 1) MAX_PORTIONS\<rparr>)
               (selections (primaryWeek (weeks st))))"
    unfolding applyEdit.simps using modalChangePortions_repeat [OF assms, of oid _ sh p] by blast
  show "\<forall>k dd x q. 0 < k \<longrightarrow>
        \<not> isEditable (repeatWeeks st) k \<and> modalToggleDay sh k dd st = st \<and>
        modalChangePortions sh k x q st = st"
    using modal_not_editable [OF assms] by blast
  show "\<forall>r. loadInitialState sh coerce item = Loaded r \<and> truthy (r_repeatWeeks r) \<longrightarrow>
        repeatSynced (r_weeks r)"
    using load_repeat_synced by blast
  show "\<forall>s s'. (repeatWeeks s \<longrightarrow> repeatSynced (weeks s)) \<and> applyOp sh menu op s = Inr s' \<and>
           (\<forall>i u. op = UpdateWeek i u \<longrightarrow> isEditable (repeatWeeks s) i) \<longrightarrow>
        (repeatWeeks s' \<longrightarrow> repeatSynced (weeks s'))"
    using inv_applyOp by blast
qed

text \<open>
  Three weeks that differ, with repeat mode on: Tuesday is added, Monday goes from two to
  three portions, everything is cleared; the stored sample is restored and repeat mode is
  switched on in the state with repeat mode off.
\<close>

theorem repeat_on_edits_propagate_witness:
  "repeatWeeks exStateSkew \<and> \<not> repeatSynced (weeks exStateSkew) \<and>
   md_offerId exTuesday = Some ''tue'' \<and> md_status exTuesday = Available \<and>
   length (weeks (applyEdit exShift (Some exMenu) (ToggleDay exTuesday) exStateSkew)) = 3 \<and>
   selections (weeks (applyEdit exShift (Some exMenu) (ToggleDay exTuesday) exStateSkew) ! 1) =
     fmupd ''tue'' \<lparr>offerId = ''tue'', day = ''Tue'', portions = 1\<rparr> exMondayTwice \<and>
   selections (weeks (applyEdit exShift (Some exMenu) (ToggleDay exTuesday) exStateSkew) ! 2) =
     fmupd ''tue'' \<lparr>offerId = ''tue'', day = ''Tue'', portions = 1\<rparr> exMondayTwice \<and>
   selections (weeks (applyEdit exShift (Some exMenu) (ChangePortions ''mon'' 3) exStateSkew) ! 1) =
     fmupd ''mon'' \<lparr>offerId = ''mon'', day = ''Mon'', portions = 3\<rparr> exMondayTwice \<and>
   selections (weeks (applyEdit exShift (Some exMenu) ClearAll exStateSkew) ! 1) = fmempty \<and>
   enabled (weeks (applyEdit exShift (Some exMenu) (ToggleDay exTuesday) exStateSkew) ! 2) =
     enabled (weeks exStateSkew ! 2) \<and>
   \<not> isEditable (repeatWeeks exStateSkew) 1 \<and>
   modalToggleDay exShift 1 exTuesday exStateSkew = exStateSkew \<and>
   (\<exists>r. loadInitialState exShift (\<lambda>j. NaN) (Parsed exStored) = Loaded r \<and>
        truthy (r_repeatWeeks r) \<and> repeatSynced (r_weeks r)) \<and>
   (\<exists>s'. applyOp exShift (Some exMenu) (RepeatToggle True) exStateOff = Inr s' \<and>
        repeatWeeks s' \<and> repeatSynced (weeks s'))"
proof -
  have h: "repeatWeeks exStateSkew" by (simp add: exStateSkew_def)
  have skew: "\<not> repeatSynced (weeks exStateSkew)"
    by (simp add: exStateSkew_def exStateOff_def repeatSynced_def exMondayTwice_def)
  have tue: "md_offerId exTuesday = Some ''tue''" "''tue'' \<noteq> []" "md_status exTuesday = Available"
    by (simp_all add: exTuesday_def)
  have N: "nat (clampNumber (num (weeksCount exStateSkew)) 1 MAX_WEEKS) = 3"
    by (simp add: exStateSkew_def exStateOff_def clampNumber_def num_def MAX_WEEKS_def)
  have L: "length (weeks exStateSkew) = 3" by (simp add: exStateSkew_def exStateOff_def)
  have S: "selections (primaryWeek (weeks exStateSkew)) = exMondayTwice"
    by (simp add: exStateSkew_def exStateOff_def)
  have notin: "''tue'' |\<notin>| fmdom exMondayTwice" by (simp add: exMondayTwice_def)
  have mon: "fmlookup exMondayTwice ''mon'' = Some \<lparr>offerId = ''mon'', day = ''Mon'', portions = 2\<rparr>"
    by (simp add: exMondayTwice_def)
  have ne: "exMondayTwice \<noteq> fmempty"
    using mon by auto
  have q: "portions \<lparr>offerId = ''mon'', day = ''Mon'', portions = 2\<rparr> \<noteq> min (max 3 1) MAX_PORTIONS"
    by (simp add: MAX_PORTIONS_def)
  note t = repeat_on_edits_propagate [OF h, where sh = exShift and menu = "Some exMenu"
      and e = "ToggleDay exTuesday" and d = exTuesday and oid = "''mon''" and p = 3
      and m = exMenu and name = "''Tue''"
      and preset = "\<lparr>preset_days = [''Mon''], preset_portions = 2\<rparr>"
      and coerce = "\<lambda>j. NaN" and item = "Parsed exStored" and op = "RepeatToggle True",
      unfolded N S L]
  note c2 = t [THEN conjunct2, THEN conjunct1]
  note c3 = t [THEN conjunct2, THEN conjunct2, THEN conjunct1]
  note c4 = t [THEN conjunct2, THEN conjunct2, THEN conjunct2, THEN conjunct1]
  note c7 = t [THEN conjunct2, THEN conjunct2, THEN conjunct2, THEN conjunct2, THEN conjunct2,
      THEN conjunct2, THEN conjunct1]
  note r10 = t [THEN conjunct2, THEN conjunct2, THEN conjunct2, THEN conjunct2, THEN conjunct2,
      THEN conjunct2, THEN conjunct2, THEN conjunct2, THEN conjunct2, THEN conjunct2]
  note c11 = r10 [THEN conjunct1]
  note c12 = r10 [THEN conjunct2, THEN conjunct1]
  note c13 = r10 [THEN conjunct2, THEN conjunct2]
  from c3 [rule_format, of "''tue''"] tue notin have T1:
    "length (weeks (applyEdit exShift (Some exMenu) (ToggleDay exTuesday) exStateSkew)) = 3 \<and>
     (\<forall>k<3. selections (weeks (applyEdit exShift (Some exMenu) (ToggleDay exTuesday) exStateSkew) ! k) =
        fmupd ''tue'' \<lparr>offerId = ''tue'', day = md_day exTuesday, portions = 1\<rparr> exMondayTwice)"
    by simp
  then have a: "length (weeks (applyEdit exShift (Some exMenu) (ToggleDay exTuesday) exStateSkew)) = 3"
    "selections (weeks (applyEdit exShift (Some exMenu) (ToggleDay exTuesday) exStateSkew) ! 1) =
       fmupd ''tue'' \<lparr>offerId = ''tue'', day = ''Tue'', portions = 1\<rparr> exMondayTwice"
    "selections (weeks (applyEdit exShift (Some exMenu) (ToggleDay exTuesday) exStateSkew) ! 2) =
       fmupd ''tue'' \<lparr>offerId = ''tue'', day = ''Tue'', portions = 1\<rparr> exMondayTwice"
    by (simp_all add: exTuesday_def)
  from c4 [rule_format, OF conjI [OF mon q], THEN conjunct2] have b:
    "selections (weeks (applyEdit exShift (Some exMenu) (ChangePortions ''mon'' 3) exStateSkew) ! 1) =
       fmupd ''mon'' \<lparr>offerId = ''mon'', day = ''Mon'', portions = 3\<rparr> exMondayTwice"
    by (simp add: MAX_PORTIONS_def)
  from c7 [rule_format, OF ne, THEN conjunct2] have c:
    "selections (weeks (applyEdit exShift (Some exMenu) ClearAll exStateSkew) ! 1) = fmempty"
    by simp
  from c2 [rule_format, of 2] a(1) have d:
    "enabled (weeks (applyEdit exShift (Some exMenu) (ToggleDay exTuesday) exStateSkew) ! 2) =
     enabled (weeks exStateSkew ! 2)"
    by simp
  from c11 [rule_format, of 1 exTuesday] have e:
    "\<not> isEditable (repeatWeeks exStateSkew) 1"
    "modalToggleDay exShift 1 exTuesday exStateSkew = exStateSkew"
    by simp_all
  obtain r where r: "loadInitialState exShift (\<lambda>j. NaN) (Parsed exStored) = Loaded r"
    "truthy (r_repeatWeeks r)"
    by (simp add: loadInitialState_def exStored_def Let_def coalesce_def truthy_def)
  from c12 [rule_format, OF conjI [OF r]] have f: "repeatSynced (r_weeks r)" .
  have inv: "repeatWeeks exStateOff \<longrightarrow> repeatSynced (weeks exStateOff)"
    by (simp add: exStateOff_def)
  obtain s' where s: "applyOp exShift (Some exMenu) (RepeatToggle True) exStateOff = Inr s'"
    "repeatWeeks s'"
    by (simp add: handleRepeatToggle_def exStateOff_def Let_def eval_weeks upt_3)
  have ed: "\<forall>i u. RepeatToggle True = UpdateWeek i u \<longrightarrow> isEditable (repeatWeeks exStateOff) i"
    by simp
  from c13 [rule_format, OF conjI [OF inv conjI [OF s(1) ed]] s(2)]
  have g: "repeatSynced (weeks s')" .
  from r f have F: "\<exists>r. loadInitialState exShift (\<lambda>j. NaN) (Parsed exStored) = Loaded r \<and>
        truthy (r_repeatWeeks r) \<and> repeatSynced (r_weeks r)" by blast
  from s g have G: "\<exists>s'. applyOp exShift (Some exMenu) (RepeatToggle True) exStateOff = Inr s' \<and>
        repeatWeeks s' \<and> repeatSynced (weeks s')" by blast
  show ?thesis
    by (intro conjI) (rule h skew tue(1) tue(3) a b c d e F G)+
qed

text \<open>
  Claim C2. With repeat mode off, an edit of the first week leaves the selections of every
  later week as they were (a week that normalization had to add is empty). Switching
  repeat mode on, in a state with at least one week, gives every later week the first
  week's current selections at once.
\<close>

theorem repeat_off_weeks_independent:
  assumes "\<not> repeatWeeks st"
  shows "(\<forall>k. 0 < k \<and> k < length (weeks (applyEdit sh menu e st)) \<longrightarrow>
              selections (weeks (applyEdit sh menu e st) ! k) =
                (if k < length (weeks st) then selections (weeks st ! k) else fmempty)) \<and>
         (1 \<le> weeksCount st \<longrightarrow>
            (\<exists>st'. handleRepeatToggle sh True st = Inr st' \<and> repeatWeeks st' \<and>
                   length (weeks st') = nat (weeksCount st) \<and>
                   selections (weeks st' ! 0) = selections (primaryWeek (weeks st)) \<and>
                   (\<forall>k. 0 < k \<and> k < length (weeks st') \<longrightarrow>
                        selections (weeks st' ! k) = selections (primaryWeek (weeks st)))))"
proof (intro conjI impI)
  show "\<forall>k. 0 < k \<and> k < length (weeks (applyEdit sh menu e st)) \<longrightarrow>
              selections (weeks (applyEdit sh menu e st) ! k) =
                (if k < length (weeks st) then selections (weeks st ! k) else fmempty)"
    using applyEdit_props [of sh menu e st] assms by (auto simp: editProps_def)
next
  assume wc: "1 \<le> weeksCount st"
  define E where "E = ensureWeekAt sh (weeks st) (firstWeekStart (weeks st)) True"
  have pos: "0 < nat (weeksCount st)" using wc by simp
  have w0: "ensureWeeks sh (weeks st) (weeksCount st) (firstWeekStart (weeks st)) True =
            E 0 # map E [1..<nat (weeksCount st)]"
    unfolding E_def using pos by (rule ensureWeeks_Cons)
  define st' where "st' = st\<lparr>repeatWeeks := True,
     weeks := syncRepeatedWeeks (E 0 # map E [1..<nat (weeksCount st)]) (selections (E 0))\<rparr>"
  have t: "handleRepeatToggle sh True st = Inr st'"
    using assms by (simp add: handleRepeatToggle_def Let_def w0 st'_def)
  have selE: "selections (E k) = selections (primaryWeek (weeks st))" for k
    by (simp add: E_def selections_ensureWeekAt)
  have len: "length (weeks st') = nat (weeksCount st)"
    using pos by (simp add: st'_def)
  have nth: "selections (weeks st' ! k) = selections (primaryWeek (weeks st))"
    if "k < length (weeks st')" for k
    using that len by (cases k) (auto simp: st'_def nth_sync selE)
  show "\<exists>st'. handleRepeatToggle sh True st = Inr st' \<and> repeatWeeks st' \<and>
              length (weeks st') = nat (weeksCount st) \<and>
              selections (weeks st' ! 0) = selections (primaryWeek (weeks st)) \<and>
              (\<forall>k. 0 < k \<and> k < length (weeks st') \<longrightarrow>
                   selections (weeks st' ! k) = selections (primaryWeek (weeks st)))"
    using t len nth pos by (intro exI [of _ st']) (auto simp: st'_def)
qed

text \<open>
  Three different weeks with repeat mode off: Monday of the first week goes from two to
  three portions, then repeat mode is switched on.
\<close>

theorem repeat_off_weeks_independent_witness:
  "\<not> repeatWeeks exStateOff \<and>
   selections (weeks (applyEdit exShift (Some exMenu) (ChangePortions ''mon'' 3) exStateOff) ! 1) =
     selections (weeks exStateOff ! 1) \<and>
   (\<exists>st'. handleRepeatToggle exShift True exStateOff = Inr st' \<and> repeatWeeks st' \<and>
      length (weeks st') = 3 \<and>
      selections (weeks st' ! 0) = exMondayTwice \<and>
      selections (weeks st' ! 1) = exMondayTwice \<and>
      selections (weeks st' ! 2) = exMondayTwice)"
proof -
  have h: "\<not> repeatWeeks exStateOff" by (simp add: exStateOff_def)
  have wc: "1 \<le> weeksCount exStateOff" by (simp add: exStateOff_def)
  have lens: "length (weeks exStateOff) = 3" "nat (weeksCount exStateOff) = 3"
    by (simp_all add: exStateOff_def)
  have p: "selections (primaryWeek (weeks exStateOff)) = exMondayTwice"
    by (simp add: exStateOff_def)
  have len: "length (weeks (applyEdit exShift (Some exMenu) (ChangePortions ''mon'' 3) exStateOff)) = 3"
    by (simp add: handleChangePortions_def eval_weeks ex_items exStateOff_def exMondayTwice_def upt_3)
  note t = repeat_off_weeks_independent [OF h, of exShift "Some exMenu" "ChangePortions ''mon'' 3"]
  from t len lens have a:
    "selections (weeks (applyEdit exShift (Some exMenu) (ChangePortions ''mon'' 3) exStateOff) ! 1) =
     selections (weeks exStateOff ! 1)"
    by (elim conjE) (drule spec [of _ 1], simp)
  from t wc obtain st' where st': "handleRepeatToggle exShift True exStateOff = Inr st'"
    "repeatWeeks st'" "length (weeks st') = nat (weeksCount exStateOff)"
    "selections (weeks st' ! 0) = selections (primaryWeek (weeks exStateOff))"
    "\<forall>k. 0 < k \<and> k < length (weeks st') \<longrightarrow>
         selections (weeks st' ! k) = selections (primaryWeek (weeks exStateOff))"
    by blast
  have b: "selections (weeks st' ! 1) = exMondayTwice" "selections (weeks st' ! 2) = exMondayTwice"
    using st'(3,5) lens p by simp_all
  show ?thesis
    using h a st'(1,2,3,4) b lens p by auto
qed

text \<open>
  Claim C3. Normalization (\<open>ensureWeeks\<close> with the clamped count, the base week start and
  the repeat flag, then the pruning against the menu and the repeat synchronization) is
  idempotent: run on its own result it returns that result, which \<open>areWeeksEqual\<close>
  accepts. When the base week start is taken from the state, the date library has to read
  back the date text it wrote (\<open>baseDateStable\<close>).
\<close>

theorem normalization_idempotent:
  assumes "baseDateStable sh menu st"
  shows "\<exists>st1 st2. menuEffect sh menu st = Inr st1 \<and> menuEffect sh menu st1 = Inr st2 \<and>
                   areWeeksEqual (weeks st2) (weeks st1) \<and> st2 = st1"
proof -
  define N where "N = nat (clampNumber (num (weeksCount st)) 1 MAX_WEEKS)"
  define W where "W = map (normWeekAt sh menu st) [0..<N]"
  have 1: "menuEffect sh menu st = Inr (st\<lparr>weeks := W\<rparr>)"
    by (simp add: menuEffect_eq W_def N_def)
  have "menuEffect sh menu (st\<lparr>weeks := W\<rparr>) =
        Inr (st\<lparr>weeks := map (normWeekAt sh menu (st\<lparr>weeks := W\<rparr>)) [0..<N]\<rparr>)"
    by (simp add: menuEffect_eq N_def)
  also have "map (normWeekAt sh menu (st\<lparr>weeks := W\<rparr>)) [0..<N] = W"
    unfolding W_def N_def by (rule normalize_idem [OF assms])
  finally have 2: "menuEffect sh menu (st\<lparr>weeks := W\<rparr>) = Inr (st\<lparr>weeks := W\<rparr>)" .
  from 1 2 show ?thesis by simp
qed

text \<open>The sample state, normalized without a menu.\<close>

theorem normalization_idempotent_witness:
  "baseDateStable exShift None exState \<and>
   (\<exists>st1 st2. menuEffect exShift None exState = Inr st1 \<and> menuEffect exShift None st1 = Inr st2 \<and>
      areWeeksEqual (weeks st2) (weeks st1) \<and> st2 = st1)"
proof -
  have h: "baseDateStable exShift None exState"
    by (simp add: baseDateStable_def dateRoundTrips_def menuWeekStart_def firstWeekStart_def
          exState_def exShift_def clampNumber_def num_def MAX_WEEKS_def list_all_iff)
  from normalization_idempotent [OF h] h show ?thesis by simp
qed

text \<open>
  Claim C4 as stated fails: with repeat mode off and a menu without any offer, the effect
  empties the first week and leaves Tuesday in the second week, although the menu does not
  offer it. No other state update prunes a later week.
\<close>

theorem prune_later_week_counterexample:
  "\<not> repeatWeeks exStateOff \<and>
   ''tue'' \<notin> set (validOfferIds exMenuEmpty) \<and>
   menuEffect exShift (Some exMenuEmpty) exStateOff =
     Inr (exStateOff\<lparr>weeks :=
        [\<lparr>weekStart = Some ''2024-01-01'', selections = fmempty, enabled = True\<rparr>,
         \<lparr>weekStart = Some ''2024-01-08'',
          selections = fmupd ''tue'' \<lparr>offerId = ''tue'', day = ''Tue'', portions = 1\<rparr> fmempty,
          enabled = True\<rparr>,
         \<lparr>weekStart = Some ''2024-01-15'', selections = fmempty, enabled = False\<rparr>]\<rparr>)"
  by (simp add: menuEffect_def pruneStep_def repeatStep_def validOfferIds_def eval_weeks exStateOff_def
        exMenuEmpty_def exShift_def upt_3)

text \<open>
  Claim C4, amended. The menu effect never raises. It leaves in the first week exactly the
  selections whose offer the menu still has; in repeat mode every later week then holds
  the pruned selections of the first week, and with repeat mode off the later weeks keep
  their selections unpruned.
\<close>

theorem menu_prunes_first_week:
  "\<exists>st'. menuEffect sh (Some m) st = Inr st' \<and> weeks st' \<noteq> [] \<and>
     selections (weeks st' ! 0) =
       fmfilter (\<lambda>oid. oid \<in> set (validOfferIds m)) (selections (primaryWeek (weeks st))) \<and>
     (\<forall>oid. oid |\<in>| fmdom (selections (weeks st' ! 0)) \<longrightarrow> oid \<in> set (validOfferIds m)) \<and>
     (repeatWeeks st \<longrightarrow>
        (\<forall>k. 0 < k \<and> k < length (weeks st') \<longrightarrow>
             selections (weeks st' ! k) = selections (weeks st' ! 0))) \<and>
     (\<not> repeatWeeks st \<longrightarrow>
        (\<forall>k. 0 < k \<and> k < length (weeks st') \<longrightarrow>
             selections (weeks st' ! k) =
               (if k < length (weeks st) then selections (weeks st ! k) else fmempty)))"
proof -
  define N where "N = nat (clampNumber (num (weeksCount st)) 1 MAX_WEEKS)"
  define st' where "st' = st\<lparr>weeks := map (normWeekAt sh (Some m) st) [0..<N]\<rparr>"
  have me: "menuEffect sh (Some m) st = Inr st'"
    by (simp add: menuEffect_eq st'_def N_def)
  have pos: "0 < N" unfolding N_def by (rule clampWeeks_pos)
  have nth: "weeks st' ! k = normWeekAt sh (Some m) st k" if "k < N" for k
    using that by (simp add: st'_def)
  have len: "length (weeks st') = N" by (simp add: st'_def)
  have s0: "selections (weeks st' ! 0) =
       fmfilter (\<lambda>oid. oid \<in> set (validOfferIds m)) (selections (primaryWeek (weeks st)))"
    using nth [OF pos] by (simp add: normWeekAt_fields pruned_def)
  show ?thesis
  proof (intro exI [of _ st'] conjI impI allI)
    show "menuEffect sh (Some m) st = Inr st'" by (rule me)
    show "weeks st' \<noteq> []" using len pos by auto
    show "selections (weeks st' ! 0) =
       fmfilter (\<lambda>oid. oid \<in> set (validOfferIds m)) (selections (primaryWeek (weeks st)))"
      by (rule s0)
    show "oid \<in> set (validOfferIds m)" if "oid |\<in>| fmdom (selections (weeks st' ! 0))" for oid
      using that unfolding s0 by simp
    show "selections (weeks st' ! k) = selections (weeks st' ! 0)"
      if "repeatWeeks st" "0 < k \<and> k < length (weeks st')" for k
      using that nth [of k] nth [OF pos] len by (simp add: normWeekAt_fields)
    show "selections (weeks st' ! k) =
            (if k < length (weeks st) then selections (weeks st ! k) else fmempty)"
      if "\<not> repeatWeeks st" "0 < k \<and> k < length (weeks st')" for k
      using that nth [of k] len by (simp add: normWeekAt_fields)
  qed
qed

text \<open>The state and the menu of the counterexample.\<close>

theorem menu_prunes_first_week_witness:
  "\<not> repeatWeeks exStateOff \<and>
   (\<exists>st'. menuEffect exShift (Some exMenuEmpty) exStateOff = Inr st' \<and>
      selections (weeks st' ! 0) = fmempty \<and>
      selections (weeks st' ! 1) = selections (weeks exStateOff ! 1))"
proof -
  have h: "\<not> repeatWeeks exStateOff" by (simp add: exStateOff_def)
  obtain st' where st': "menuEffect exShift (Some exMenuEmpty) exStateOff = Inr st'"
    and s0: "selections (weeks st' ! 0) =
       fmfilter (\<lambda>oid. oid \<in> set (validOfferIds exMenuEmpty)) (selections (primaryWeek (weeks exStateOff)))"
    and off: "\<not> repeatWeeks exStateOff \<longrightarrow>
        (\<forall>k. 0 < k \<and> k < length (weeks st') \<longrightarrow>
             selections (weeks st' ! k) =
               (if k < length (weeks exStateOff) then selections (weeks exStateOff ! k) else fmempty))"
    using menu_prunes_first_week [of exShift exMenuEmpty exStateOff] by blast
  have len: "length (weeks st') = 3"
    using menuEffect_weeks(2) [OF st'] by (simp add: exStateOff_def clampNumber_def num_def MAX_WEEKS_def)
  have a: "selections (weeks st' ! 0) = fmempty"
    unfolding s0 by (simp add: validOfferIds_def exMenuEmpty_def)
  have b: "selections (weeks st' ! 1) = selections (weeks exStateOff ! 1)"
    using off h len by (simp add: exStateOff_def)
  from h st' a b show ?thesis by blast
qed

text \<open>
  Claim C5. Changing the number of weeks gives a week list of exactly the new (clamped)
  length: a smaller count drops the weeks beyond it, a larger count appends enabled weeks
  that hold the first week's selections in repeat mode and no selections otherwise, and
  every retained week keeps its selections and its enabled flag.
\<close>

theorem weeksCount_change_resizes:
  assumes change: "clampNumber v 1 MAX_WEEKS \<noteq> weeksCount st"
    and inv: "repeatWeeks st \<longrightarrow> repeatSynced (weeks st)"
  shows "weeksCount (handleWeeksCountChange sh v st) = clampNumber v 1 MAX_WEEKS \<and>
         length (weeks (handleWeeksCountChange sh v st)) = nat (clampNumber v 1 MAX_WEEKS) \<and>
         1 \<le> clampNumber v 1 MAX_WEEKS \<and> clampNumber v 1 MAX_WEEKS \<le> 8 \<and>
         (\<forall>k. k < length (weeks st) \<and> k < nat (clampNumber v 1 MAX_WEEKS) \<longrightarrow>
              selections (weeks (handleWeeksCountChange sh v st) ! k) = selections (weeks st ! k) \<and>
              enabled (weeks (handleWeeksCountChange sh v st) ! k) =
                (if k = 0 then True else enabled (weeks st ! k))) \<and>
         (\<forall>k. length (weeks st) \<le> k \<and> 0 < k \<and> k < nat (clampNumber v 1 MAX_WEEKS) \<longrightarrow>
              selections (weeks (handleWeeksCountChange sh v st) ! k) =
                (if repeatWeeks st then selections (primaryWeek (weeks st)) else fmempty) \<and>
              enabled (weeks (handleWeeksCountChange sh v st) ! k))"
proof -
  define t where "t = clampNumber v 1 MAX_WEEKS"
  define E where "E = ensureWeekAt sh (weeks st) (firstWeekStart (weeks st)) (repeatWeeks st)"
  have h: "handleWeeksCountChange sh v st =
           st\<lparr>weeksCount := t, weeks := ensureWeeks sh (weeks st) t (firstWeekStart (weeks st)) (repeatWeeks st)\<rparr>"
    using change by (simp add: handleWeeksCountChange_def Let_def t_def)
  have nth: "weeks (handleWeeksCountChange sh v st) ! k = E k" if "k < nat t" for k
    using that by (simp add: h E_def)
  have kept: "selections (E k) = selections (weeks st ! k)" if "k < length (weeks st)" for k
  proof (cases "k = 0 \<or> repeatWeeks st")
    case False
    then show ?thesis using that by (simp add: E_def selections_ensureWeekAt)
  next
    case True
    have p: "selections (primaryWeek (weeks st)) = selections (weeks st ! 0)"
      using that by (cases "weeks st") (auto simp: primaryWeek_def)
    show ?thesis
    proof (cases "k = 0")
      case k0: True
      then show ?thesis using p by (simp add: E_def selections_ensureWeekAt)
    next
      case kp: False
      with True have r: "repeatWeeks st" by simp
      with inv have "selections (weeks st ! k) = selections (weeks st ! 0)"
        using that kp by (simp add: repeatSynced_iff)
      then show ?thesis using r p by (simp add: E_def selections_ensureWeekAt)
    qed
  qed
  show ?thesis
    unfolding t_def [symmetric]
    using clampWeeks_le [of v] nth kept
    by (auto simp: h t_def [symmetric] E_def selections_ensureWeekAt enabled_ensureWeekAt)
qed

text \<open>The sample state grows from three weeks to five.\<close>

theorem weeksCount_change_resizes_witness:
  "clampNumber (num 5) 1 MAX_WEEKS \<noteq> weeksCount exState \<and>
   repeatSynced (weeks exState) \<and>
   weeksCount (handleWeeksCountChange exShift (num 5) exState) = 5 \<and>
   length (weeks (handleWeeksCountChange exShift (num 5) exState)) = 5 \<and>
   selections (weeks (handleWeeksCountChange exShift (num 5) exState) ! 1) =
     selections (weeks exState ! 1) \<and>
   enabled (weeks (handleWeeksCountChange exShift (num 5) exState) ! 2) = enabled (weeks exState ! 2) \<and>
   selections (weeks (handleWeeksCountChange exShift (num 5) exState) ! 4) = exMondayTwice \<and>
   enabled (weeks (handleWeeksCountChange exShift (num 5) exState) ! 4)"
proof -
  have c: "clampNumber (num 5) 1 MAX_WEEKS = 5"
    by (simp add: clampNumber_def num_def MAX_WEEKS_def)
  have h1: "clampNumber (num 5) 1 MAX_WEEKS \<noteq> weeksCount exState"
    by (simp add: c exState_def)
  have s: "repeatSynced (weeks exState)" by (simp add: exState_def repeatSynced_def)
  then have h2: "repeatWeeks exState \<longrightarrow> repeatSynced (weeks exState)" by simp
  have facts: "length (weeks exState) = 3" "repeatWeeks exState"
    "selections (primaryWeek (weeks exState)) = exMondayTwice"
    by (simp_all add: exState_def)
  note t = weeksCount_change_resizes [OF h1 h2, of exShift, unfolded c]
  from t have a: "weeksCount (handleWeeksCountChange exShift (num 5) exState) = 5"
    "length (weeks (handleWeeksCountChange exShift (num 5) exState)) = 5"
    by simp_all
  from t facts have b:
    "selections (weeks (handleWeeksCountChange exShift (num 5) exState) ! 1) =
       selections (weeks exState ! 1)"
    by (elim conjE) (drule spec [of _ 1], simp)
  from t facts have d:
    "enabled (weeks (handleWeeksCountChange exShift (num 5) exState) ! 2) = enabled (weeks exState ! 2)"
    by (elim conjE) (drule spec [of _ 2], simp)
  from t facts have e:
    "selections (weeks (handleWeeksCountChange exShift (num 5) exState) ! 4) = exMondayTwice \<and>
     enabled (weeks (handleWeeksCountChange exShift (num 5) exState) ! 4)"
    by (elim conjE) (drule spec [of _ 4], drule spec [of _ 4], simp)
  from h1 s a b d e show ?thesis by simp
qed

text \<open>
  Claim C6 as stated fails: asking for five portions of a selected offer is not rejected,
  and five portions are stored.
\<close>

theorem change_portions_counterexample:
  "fmlookup (selections (weeks (handleChangePortions exShift (Some exMenu) ''mon'' 5 exState) ! 0)) ''mon'' =
     Some \<lparr>offerId = ''mon'', day = ''Mon'', portions = 5\<rparr> \<and>
   \<not> (5 \<le> (4 :: int))"
  by (simp add: handleChangePortions_def eval_weeks ex_items exState_def exMondayTwice_def upt_3)

text \<open>
  Claim C6, amended. A portion edit in the planner is never rejected: for an offer selected
  in the first week the stored number becomes the request clamped into 1..8
  (\<open>MAX_PORTIONS\<close>), and for an offer that is not selected the state stays as it is. In
  the order wizard the count is always one of 1..4.
\<close>

theorem portions_clamped_not_rejected:
  "(\<forall>sel. fmlookup (selections (primaryWeek (weeks st))) oid = Some sel \<longrightarrow>
      fmlookup (selections (primaryWeek (weeks (handleChangePortions sh menu oid p st)))) oid =
        Some (sel\<lparr>portions := min (max p 1) MAX_PORTIONS\<rparr>) \<and>
      1 \<le> min (max p 1) MAX_PORTIONS \<and> min (max p 1) MAX_PORTIONS \<le> 8) \<and>
   (fmlookup (selections (primaryWeek (weeks st))) oid = None \<longrightarrow>
      handleChangePortions sh menu oid p st = st) \<and>
   1 \<le> countAfter clicks \<and> countAfter clicks \<le> 4"
proof -
  have c: "1 \<le> countAfter clicks \<and> countAfter clicks \<le> 4"
    unfolding countAfter_def by (rule countAfter_range_aux) simp
  have n: "fmlookup (selections (primaryWeek (weeks st))) oid = None \<Longrightarrow>
      handleChangePortions sh menu oid p st = st"
    using handleChangePortions_result [of sh menu oid p st] by simp
  show ?thesis
    using handleChangePortions_result [of sh menu oid p st] c n
    by (simp add: MAX_PORTIONS_def)
qed

text \<open>Eleven portions are asked for; the wizard's buttons are pressed three times.\<close>

theorem portions_clamped_not_rejected_witness:
  "fmlookup (selections (primaryWeek (weeks exState))) ''mon'' =
     Some \<lparr>offerId = ''mon'', day = ''Mon'', portions = 2\<rparr> \<and>
   fmlookup (selections (primaryWeek (weeks (handleChangePortions exShift (Some exMenu) ''mon'' 11 exState)))) ''mon'' =
     Some \<lparr>offerId = ''mon'', day = ''Mon'', portions = 8\<rparr> \<and>
   countAfter [3, 7, 1] = 2"
proof -
  have h: "fmlookup (selections (primaryWeek (weeks exState))) ''mon'' =
     Some \<lparr>offerId = ''mon'', day = ''Mon'', portions = 2\<rparr>"
    by (simp add: exState_def primaryWeek_def exMondayTwice_def)
  from portions_clamped_not_rejected [of exState "''mon''" exShift "Some exMenu" 11 "[3, 7, 1]"] h
  have a: "fmlookup (selections (primaryWeek (weeks (handleChangePortions exShift (Some exMenu) ''mon'' 11 exState)))) ''mon'' =
     Some \<lparr>offerId = ''mon'', day = ''Mon'', portions = 8\<rparr>"
    by (simp add: MAX_PORTIONS_def)
  have c: "countAfter [3, 7, 1] = 2"
    by (simp add: countAfter_def clickCount_def COUNT_OPTIONS_def)
  from h a c show ?thesis by simp
qed

text \<open>
  Claim C7. The grand total is the subtotal less the discount, and never below zero: in the
  total that the page computes itself while no quote has arrived, and in the total of a
  quote from the calculator. A discount of at least the subtotal gives zero, and so does
  an empty selection.
\<close>

theorem overall_total_never_negative:
  "overallTotal dayOrder None menu st =
     max (overallSubtotal dayOrder None menu st - overallDiscount None) 0 \<and>
   overallTotal dayOrder (Some (serverQuote subtotal discount)) menu st =
     max (overallSubtotal dayOrder (Some (serverQuote subtotal discount)) menu st
          - overallDiscount (Some (serverQuote subtotal discount))) 0 \<and>
   0 \<le> overallTotal dayOrder None menu st \<and>
   0 \<le> overallTotal dayOrder (Some (serverQuote subtotal discount)) menu st \<and>
   (subtotal \<le> discount \<longrightarrow>
      overallTotal dayOrder (Some (serverQuote subtotal discount)) menu st = 0) \<and>
   (selectionEntries dayOrder menu st = [] \<longrightarrow>
      overallSubtotal dayOrder None menu st = 0 \<and> overallTotal dayOrder None menu st = 0) \<and>
   overallTotal dayOrder (Some (serverQuote 0 discount)) menu st = max (0 - discount) 0"
  by (simp add: overallTotal_def overallSubtotal_def overallDiscount_def serverQuote_def
        quoteTotal_def baseSubtotalFallback_def)

text \<open>A discount above the subtotal, and a plan without a menu.\<close>

theorem overall_total_never_negative_witness:
  "(3000 :: int) \<le> 5000 \<and>
   overallTotal [] (Some (serverQuote 3000 5000)) (Some exMenu) exState = 0 \<and>
   selectionEntries [] None exState = [] \<and>
   overallTotal [] None None exState = 0"
proof -
  have h1: "(3000 :: int) \<le> 5000" by simp
  have h2: "selectionEntries [] None exState = []"
    by (simp add: selectionEntries_def buildSelectionEntries_def)
  from overall_total_never_negative [of "[]" "Some exMenu" exState 3000 5000] h1
  have a: "overallTotal [] (Some (serverQuote 3000 5000)) (Some exMenu) exState = 0"
    by blast
  from overall_total_never_negative [of "[]" None exState 0 0] h2
  have b: "overallTotal [] None None exState = 0"
    by blast
  from h1 h2 a b show ?thesis by simp
qed

text \<open>
  Claim C8. When the other guards pass and the customer has an active order for the same
  day and week, \<open>createOrder\<close> fails with the duplicate error that carries the id and the
  portion count of that order; orders that are cancelled do not block the new order. The
  wizard keeps the id and the count of a 409 \<open>duplicate_order\<close> response for the customer's
  choice.
\<close>

theorem duplicate_order_rejected:
  assumes "1 \<le> req_portions req" and "req_portions req \<le> 4" and "orderable" and "\<not> throttled"
  shows "(\<forall>dup. findActive orders (req_customer req) (req_day req) (req_weekStart req) = Some dup \<longrightarrow>
            createOrder orderable throttled commit orders req =
              Inl (DuplicateOrderError (order_id dup) (order_count dup)) \<and>
            dup \<in> set orders \<and> order_status dup = StatusNew \<and>
            order_customer dup = req_customer req \<and> order_day dup = req_day req \<and>
            order_weekStart dup = req_weekStart req) \<and>
         ((\<exists>ord \<in> set orders. isActiveFor (req_customer req) (req_day req) (req_weekStart req) ord) \<longrightarrow>
            (\<exists>i n. createOrder orderable throttled commit orders req = Inl (DuplicateOrderError i n))) \<and>
         ((\<forall>ord \<in> set orders.
              order_customer ord = req_customer req \<and> order_day ord = req_day req \<and>
              order_weekStart ord = req_weekStart req \<longrightarrow> order_status ord \<noteq> StatusNew) \<longrightarrow>
            createOrder orderable throttled commit orders req = commit req orders) \<and>
         (\<forall>(payload :: ErrorResponse) i n.
            resp_status payload = 409 \<and> resp_code payload = Some ''duplicate_order'' \<and>
            resp_orderId payload = Some i \<and> resp_count payload = Some (JNum n) \<longrightarrow>
            (\<exists>info. onError fallbackDay selectedDay (Some payload) = ShowDuplicate info \<and>
                    dup_orderId info = i \<and> dup_count info = Some n))"
proof (intro conjI allI impI)
  fix dup
  assume a: "findActive orders (req_customer req) (req_day req) (req_weekStart req) = Some dup"
  show "createOrder orderable throttled commit orders req =
          Inl (DuplicateOrderError (order_id dup) (order_count dup))"
    using assms a by (simp add: createOrder_def)
  from findActive_Some [OF a]
  show "dup \<in> set orders" "order_status dup = StatusNew" "order_customer dup = req_customer req"
    "order_day dup = req_day req" "order_weekStart dup = req_weekStart req"
    by (simp_all add: isActiveFor_def)
next
  assume "\<exists>ord \<in> set orders. isActiveFor (req_customer req) (req_day req) (req_weekStart req) ord"
  then have "findActive orders (req_customer req) (req_day req) (req_weekStart req) \<noteq> None"
    by (simp add: findActive_None_iff)
  then show "\<exists>i n. createOrder orderable throttled commit orders req = Inl (DuplicateOrderError i n)"
    using assms by (auto simp: createOrder_def)
next
  assume "\<forall>ord \<in> set orders.
              order_customer ord = req_customer req \<and> order_day ord = req_day req \<and>
              order_weekStart ord = req_weekStart req \<longrightarrow> order_status ord \<noteq> StatusNew"
  then have "findActive orders (req_customer req) (req_day req) (req_weekStart req) = None"
    by (auto simp: findActive_None_iff isActiveFor_def)
  then show "createOrder orderable throttled commit orders req = commit req orders"
    using assms by (simp add: createOrder_def)
next
  fix payload :: ErrorResponse and i n
  assume "resp_status payload = 409 \<and> resp_code payload = Some ''duplicate_order'' \<and>
            resp_orderId payload = Some i \<and> resp_count payload = Some (JNum n)"
  then show "\<exists>info. onError fallbackDay selectedDay (Some payload) = ShowDuplicate info \<and>
                    dup_orderId info = i \<and> dup_count info = Some n"
    by (simp add: onError_def)
qed

text \<open>An active order for Monday and a cancelled one for Tuesday.\<close>

theorem duplicate_order_rejected_witness:
  "1 \<le> req_portions (exRequest Mon) \<and> req_portions (exRequest Mon) \<le> 4 \<and>
   createOrder True False exCommit exOrders (exRequest Mon) = Inl (DuplicateOrderError ''A'' 2) \<and>
   createOrder True False exCommit exOrders (exRequest Tue) = exCommit (exRequest Tue) exOrders"
proof -
  have h: "1 \<le> req_portions (exRequest d)" "req_portions (exRequest d) \<le> 4" for d
    by (simp_all add: exRequest_def)
  have f: "findActive exOrders (req_customer (exRequest Mon)) (req_day (exRequest Mon))
             (req_weekStart (exRequest Mon)) = Some (exOrders ! 0)"
    by (simp add: findActive_def isActiveFor_def exOrders_def exRequest_def)
  have g: "\<forall>ord \<in> set exOrders.
              order_customer ord = req_customer (exRequest Tue) \<and> order_day ord = req_day (exRequest Tue) \<and>
              order_weekStart ord = req_weekStart (exRequest Tue) \<longrightarrow> order_status ord \<noteq> StatusNew"
    by (simp add: exOrders_def exRequest_def)
  have tt: "True" and nf: "\<not> False" by simp_all
  note m = duplicate_order_rejected [where req = "exRequest Mon" and orderable = True
      and throttled = False and orders = exOrders and commit = exCommit
      and fallbackDay = "[]" and selectedDay = None, OF h(1) h(2) tt nf]
  note u = duplicate_order_rejected [where req = "exRequest Tue" and orderable = True
      and throttled = False and orders = exOrders and commit = exCommit
      and fallbackDay = "[]" and selectedDay = None, OF h(1) h(2) tt nf]
  from m f
  have "createOrder True False exCommit exOrders (exRequest Mon) =
          Inl (DuplicateOrderError (order_id (exOrders ! 0)) (order_count (exOrders ! 0)))"
    by blast
  then have a: "createOrder True False exCommit exOrders (exRequest Mon) =
          Inl (DuplicateOrderError ''A'' 2)"
    by (simp add: exOrders_def)
  from u g
  have b: "createOrder True False exCommit exOrders (exRequest Tue) = exCommit (exRequest Tue) exOrders"
    by blast
  from h [of Mon] a b show ?thesis by simp
qed



text \<open>
  Claim C10 fails on the code: a stored portion count of one half is finite and positive,
  so it is floored, and the restored selection has zero portions.
\<close>

theorem restore_fraction_zero_portions:
  "loadInitialState sh coerce (Parsed exStored) =
     Loaded \<lparr>r_weeks =
               [\<lparr>weekStart = None,
                 selections = fmupd ''mon'' \<lparr>offerId = ''mon'', day = ''Mon'', portions = 0\<rparr> fmempty,
                 enabled = True\<rparr>],
             r_weeksCount = Some 1, r_repeatWeeks = JBool True, r_address = JStr [],
             r_promoCode = JStr []\<rparr>"
  by (simp add: loadInitialState_def exStored_def restoreWeek_def optProp_def normalizeSelections_def
       isObject_def objectEntries_def toNumber_def restoredPortions_def clampNumberUntyped_def
       coalesce_def truthy_def ensureWeeksNaN_def ensureWeeks_def ensureWeekAt_def clampNumber_def
       MAX_WEEKS_def MAX_PORTIONS_def firstWeekStart_def orElse_def shiftWeekStart_def Let_def
       createWeekPlan_def enumerate_eq_zip floor_half)

end
